theory Spec2Isabelle
  imports Main
begin

section \<open>Data model\<close>

text \<open>
  Python objects have identity and are mutated in place, and the entity sets of the maps
  hold references. The model keeps every object in a store: a list per class of object,
  an object's reference being its index. Allocation appends, so a new reference is the
  length of the store before the allocation.
\<close>

datatype RenderOrder = CORPSE | ITEM | ACTOR

datatype error =
    AttributeError string
  | KeyError nat
  | SystemExit
  | NotImplementedError

text \<open>\<open>parent: Union[GameMap, Inventory]\<close>: a reference to a map or to an inventory.\<close>

datatype owner = MapRef nat | InventoryRef nat

text \<open>The class of an entity object, as \<open>isinstance\<close> sees it.\<close>

datatype entity_class = EntityCls | ActorCls | ItemCls

text \<open>
  The attributes of an entity object. \<open>ent_x\<close> and \<open>ent_y\<close> are \<open>x\<close> and \<open>y\<close>.
  \<open>parent\<close> is \<open>None\<close> while the attribute has never been assigned
  (\<open>hasattr(self, "parent")\<close> is false). \<open>ai\<close>, \<open>fighter\<close>, \<open>inventory\<close> and
  \<open>consumable\<close> are references into the component store; \<open>ai = None\<close> on an actor is
  Python's \<open>self.ai = None\<close>. \<open>game_map_attr\<close> is the instance attribute \<open>game_map\<close>
  that \<open>Action.engine\<close> reads: \<open>None\<close> when the object has no such attribute. No
  constructor or method of entity.py assigns it.
\<close>

record Entity =
  name :: string
  char :: string
  colour :: "nat \<times> nat \<times> nat"
  ent_x :: int
  ent_y :: int
  blocks_movement :: bool
  render_order :: RenderOrder
  parent :: "owner option"
  cls :: entity_class
  ai :: "nat option"
  fighter :: "nat option"
  inventory :: "nat option"
  consumable :: "nat option"
  game_map_attr :: "nat option"

text \<open>
  Modelled from the spec: the classes of the components (AI, Fighter, Inventory,
  Consumable) are not part of the sources. A component is an object of its own with a
  back-reference \<open>parent\<close> to its entity (here \<open>cparent\<close>; the \<open>entity\<close> of an AI), the
  references to the entities it holds (\<open>held_items\<close>: what an Inventory, a container, holds;
  empty for the other components), and contents without references (\<open>payload\<close>, such as
  combat numbers).
\<close>

record 'p component =
  cparent :: "nat option"
  held_items :: "nat list"
  payload :: 'p

text \<open>A tile record; of its fields only \<open>walkable\<close> is read by the code modelled here.\<close>

record tile =
  walkable :: bool

text \<open>
  \<open>tiles\<close>, \<open>visible\<close> and \<open>explored\<close> are numpy arrays of shape (width, height). They
  are total functions here; the code reads \<open>tiles\<close> only after \<open>in_bounds\<close>.
\<close>

record GameMap =
  engine :: nat
  width :: int
  height :: int
  entities :: "nat set"
  tiles :: "int \<Rightarrow> int \<Rightarrow> tile"
  visible :: "int \<Rightarrow> int \<Rightarrow> bool"
  explored :: "int \<Rightarrow> int \<Rightarrow> bool"

text \<open>Class Engine is not part of the sources; actions.py reads its attribute \<open>game_map\<close>.\<close>

record Engine =
  game_map :: nat

record 'p world =
  ents :: "Entity list"
  maps :: "GameMap list"
  engines :: "Engine list"
  comps :: "'p component list"
  stdout :: "string list"

section \<open>game\_map.py\<close>

definition in_bounds :: "GameMap \<Rightarrow> int \<Rightarrow> int \<Rightarrow> bool" where
  "in_bounds m x y \<longleftrightarrow> 0 \<le> x \<and> x < width m \<and> 0 \<le> y \<and> y < height m"

text \<open>\<open>bool(self.ai)\<close>: an AI object is truthy, \<open>None\<close> is not.\<close>

definition is_alive :: "Entity \<Rightarrow> bool" where
  "is_alive a \<longleftrightarrow> ai a \<noteq> None"

text \<open>
  Every function that iterates \<open>self.entities\<close> takes the order \<open>es\<close> in which Python
  enumerates the set during the call. The order of a set is unspecified, so the theorems
  hold for every list \<open>es\<close> that enumerates the set.
\<close>

definition actors :: "'p world \<Rightarrow> nat list \<Rightarrow> nat list" where
  "actors w es = filter (\<lambda>e. cls (ents w ! e) = ActorCls \<and> is_alive (ents w ! e)) es"

text \<open>The loop of \<open>get_actor_at_location\<close> over the actors still to be visited.\<close>

fun actor_scan :: "'p world \<Rightarrow> nat list \<Rightarrow> int \<Rightarrow> int \<Rightarrow> nat option" where
  "actor_scan w [] x y = None"
| "actor_scan w (a # as) x y =
     (if ent_x (ents w ! a) = x \<and> ent_y (ents w ! a) = y
      then (if is_alive (ents w ! a) then Some a else None)
      else actor_scan w as x y)"

definition get_actor_at_location :: "'p world \<Rightarrow> nat list \<Rightarrow> int \<Rightarrow> int \<Rightarrow> nat option" where
  "get_actor_at_location w es x y = actor_scan w (actors w es) x y"

definition items :: "'p world \<Rightarrow> nat list \<Rightarrow> nat list" where
  "items w es = filter (\<lambda>e. cls (ents w ! e) = ItemCls) es"

definition get_items_at_location :: "'p world \<Rightarrow> nat list \<Rightarrow> int \<Rightarrow> int \<Rightarrow> nat list" where
  "get_items_at_location w es x y =
     filter (\<lambda>i. ent_x (ents w ! i) = x \<and> ent_y (ents w ! i) = y) (items w es)"

fun get_blocking_entity_at_location :: "'p world \<Rightarrow> nat list \<Rightarrow> int \<Rightarrow> int \<Rightarrow> nat option" where
  "get_blocking_entity_at_location w [] location_x location_y = None"
| "get_blocking_entity_at_location w (e # es) location_x location_y =
     (if blocks_movement (ents w ! e) \<and> ent_x (ents w ! e) = location_x
         \<and> ent_y (ents w ! e) = location_y
      then Some e
      else get_blocking_entity_at_location w es location_x location_y)"

text \<open>
  \<open>GameMap.__init__\<close>: a new map whose entity set is \<open>set(entities)\<close> and whose tiles
  are all \<open>tile_types.wall\<close> (a constant that is not part of the sources, taken as
  the parameter \<open>wall\<close>). The constructor does not touch the entities it is given: their
  \<open>parent\<close> stays as it was.
\<close>

definition GameMap_init ::
  "'p world \<Rightarrow> nat \<Rightarrow> int \<Rightarrow> int \<Rightarrow> nat list \<Rightarrow> tile \<Rightarrow> 'p world \<times> nat" where
  "GameMap_init w eng wd ht es wall =
     (w\<lparr>maps := maps w @
          [\<lparr>engine = eng, width = wd, height = ht, entities = set es,
            tiles = (\<lambda>_ _. wall), visible = (\<lambda>_ _. False), explored = (\<lambda>_ _. False)\<rparr>]\<rparr>,
      length (maps w))"

section \<open>entity.py\<close>

text \<open>\<open>e.parent = gamemap; gamemap.entities.add(e)\<close>, the two statements that end
  \<open>__init__\<close> (when a parent is given), \<open>spawn\<close> and \<open>place\<close>.\<close>

definition set_parent :: "'p world \<Rightarrow> nat \<Rightarrow> nat \<Rightarrow> 'p world" where
  "set_parent w e g = w\<lparr>ents := (ents w)[e := (ents w ! e)\<lparr>parent := Some (MapRef g)\<rparr>]\<rparr>"

definition entities_add :: "'p world \<Rightarrow> nat \<Rightarrow> nat \<Rightarrow> 'p world" where
  "entities_add w g e =
     w\<lparr>maps := (maps w)[g := (maps w ! g)\<lparr>entities := insert e (entities (maps w ! g))\<rparr>]\<rparr>"

text \<open>\<open>set.remove\<close> raises KeyError when the element is not in the set.\<close>

definition entities_remove :: "'p world \<Rightarrow> nat \<Rightarrow> nat \<Rightarrow> error + 'p world" where
  "entities_remove w g e =
     (if e \<in> entities (maps w ! g)
      then Inr (w\<lparr>maps := (maps w)[g := (maps w ! g)\<lparr>entities := entities (maps w ! g) - {e}\<rparr>]\<rparr>)
      else Inl (KeyError e))"

text \<open>
  \<open>Entity.__init__\<close>, for an object of class \<open>c\<close> (the subclasses call it through
  \<open>super().__init__\<close>). A \<open>GameMap\<close> object is truthy, so \<open>if parent:\<close> tests that a map
  was given.
\<close>

definition Entity_new ::
  "entity_class \<Rightarrow> 'p world \<Rightarrow> string \<Rightarrow> string \<Rightarrow> nat \<times> nat \<times> nat \<Rightarrow> int \<Rightarrow> int \<Rightarrow> bool
     \<Rightarrow> nat option \<Rightarrow> RenderOrder \<Rightarrow> 'p world \<times> nat" where
  "Entity_new c w nm ch col x y blocks par ro =
     (let self = length (ents w);
          w1 = w\<lparr>ents := ents w @
                 [\<lparr>name = nm, char = ch, colour = col, ent_x = x, ent_y = y,
                   blocks_movement = blocks, render_order = ro, parent = None, cls = c,
                   ai = None, fighter = None, inventory = None, consumable = None,
                   game_map_attr = None\<rparr>]\<rparr>
      in case par of
           None \<Rightarrow> (w1, self)
         | Some g \<Rightarrow> (entities_add (set_parent w1 self g) g self, self))"

definition Entity_init ::
  "'p world \<Rightarrow> string \<Rightarrow> string \<Rightarrow> nat \<times> nat \<times> nat \<Rightarrow> int \<Rightarrow> int \<Rightarrow> bool
     \<Rightarrow> nat option \<Rightarrow> RenderOrder \<Rightarrow> 'p world \<times> nat" where
  "Entity_init = Entity_new EntityCls"

text \<open>\<open>component.parent = self\<close>.\<close>

definition set_cparent :: "'p world \<Rightarrow> nat \<Rightarrow> nat \<Rightarrow> 'p world" where
  "set_cparent w c self = w\<lparr>comps := (comps w)[c := (comps w ! c)\<lparr>cparent := Some self\<rparr>]\<rparr>"

text \<open>
  \<open>Actor.__init__\<close>. \<open>ai_cls(self)\<close> builds a new AI object for the actor: \<open>ai_cls\<close>
  stands for the contents of that object. \<open>fighter\<close> and \<open>inventory\<close> are references to
  the components passed in.
\<close>

definition Actor_init ::
  "'p world \<Rightarrow> int \<Rightarrow> int \<Rightarrow> string \<Rightarrow> nat \<times> nat \<times> nat \<Rightarrow> string \<Rightarrow> 'p \<Rightarrow> nat \<Rightarrow> nat
     \<Rightarrow> 'p world \<times> nat" where
  "Actor_init w x y ch col nm ai_cls ftr ivt =
     (let (w1, self) = Entity_new ActorCls w nm ch col x y True None ACTOR;
          a = length (comps w1);
          w2 = w1\<lparr>comps := comps w1 @
                 [\<lparr>cparent = Some self, held_items = [], payload = ai_cls\<rparr>]\<rparr>;
          w3 = w2\<lparr>ents := (ents w2)[self := (ents w2 ! self)\<lparr>ai := Some a\<rparr>]\<rparr>;
          w4 = w3\<lparr>ents := (ents w3)[self := (ents w3 ! self)\<lparr>fighter := Some ftr\<rparr>]\<rparr>;
          w5 = set_cparent w4 ftr self;
          w6 = w5\<lparr>ents := (ents w5)[self := (ents w5 ! self)\<lparr>inventory := Some ivt\<rparr>]\<rparr>;
          w7 = set_cparent w6 ivt self
      in (w7, self))"

definition Item_init ::
  "'p world \<Rightarrow> int \<Rightarrow> int \<Rightarrow> string \<Rightarrow> nat \<times> nat \<times> nat \<Rightarrow> string \<Rightarrow> nat \<Rightarrow> 'p world \<times> nat" where
  "Item_init w x y ch col nm cons =
     (let (w1, self) = Entity_new ItemCls w nm ch col x y False None ITEM;
          w2 = w1\<lparr>ents := (ents w1)[self := (ents w1 ! self)\<lparr>consumable := Some cons\<rparr>]\<rparr>;
          w3 = set_cparent w2 cons self
      in (w3, self))"

subsection \<open>copy.deepcopy\<close>

text \<open>
  \<open>spawn\<close> calls \<open>copy.deepcopy(self)\<close>, which copies every object that can be reached
  from the template through attribute and container references, once each (the memo),
  and makes every reference inside a copy point to the copy of its target. The objects of
  the model and the references they hold:
\<close>

datatype obj = EntObj nat | CompObj nat | MapObj nat | EngObj nat

fun owner_obj :: "owner \<Rightarrow> obj" where
  "owner_obj (MapRef m) = MapObj m"
| "owner_obj (InventoryRef c) = CompObj c"

definition component_refs :: "Entity \<Rightarrow> nat set" where
  "component_refs E =
     set_option (ai E) \<union> set_option (fighter E) \<union> set_option (inventory E)
       \<union> set_option (consumable E)"

fun refs_of :: "'p world \<Rightarrow> obj \<Rightarrow> obj set" where
  "refs_of w (EntObj e) =
     owner_obj ` set_option (parent (ents w ! e))
       \<union> CompObj ` component_refs (ents w ! e)
       \<union> MapObj ` set_option (game_map_attr (ents w ! e))"
| "refs_of w (CompObj c) =
     EntObj ` set_option (cparent (comps w ! c)) \<union> EntObj ` set (held_items (comps w ! c))"
| "refs_of w (MapObj m) =
     insert (EngObj (engine (maps w ! m))) (EntObj ` entities (maps w ! m))"
| "refs_of w (EngObj g) = {MapObj (game_map (engines w ! g))}"

text \<open>An object exists in the store; in a well-formed world no reference dangles (Python
  has no dangling references).\<close>

fun valid_obj :: "'p world \<Rightarrow> obj \<Rightarrow> bool" where
  "valid_obj w (EntObj e) \<longleftrightarrow> e < length (ents w)"
| "valid_obj w (CompObj c) \<longleftrightarrow> c < length (comps w)"
| "valid_obj w (MapObj m) \<longleftrightarrow> m < length (maps w)"
| "valid_obj w (EngObj g) \<longleftrightarrow> g < length (engines w)"

definition wf_world :: "'p world \<Rightarrow> bool" where
  "wf_world w \<longleftrightarrow>
     (\<forall>e<length (ents w). \<forall>r\<in>refs_of w (EntObj e). valid_obj w r)
     \<and> (\<forall>c<length (comps w). \<forall>r\<in>refs_of w (CompObj c). valid_obj w r)
     \<and> (\<forall>m<length (maps w). \<forall>r\<in>refs_of w (MapObj m). valid_obj w r)
     \<and> (\<forall>g<length (engines w). \<forall>r\<in>refs_of w (EngObj g). valid_obj w r)"

text \<open>
  The objects reachable from the template: the traversal adds the targets of the
  references of every object found so far, until nothing is added. Each round that adds
  something adds an object of the store, so as many rounds as the store has objects are
  enough.
\<close>

definition reach_step :: "'p world \<Rightarrow> obj set \<Rightarrow> obj set" where
  "reach_step w R = R \<union> (\<Union>ob\<in>R. refs_of w ob)"

definition n_objects :: "'p world \<Rightarrow> nat" where
  "n_objects w = length (ents w) + length (comps w) + length (maps w) + length (engines w)"

definition reachable :: "'p world \<Rightarrow> nat \<Rightarrow> obj set" where
  "reachable w t = (reach_step w ^^ n_objects w) {EntObj t}"

text \<open>
  The memo. The copies are appended to the store in the order of their originals, so
  the copy of the reachable object with reference \<open>i\<close> is at the old length of its store
  plus the number of reachable objects of its kind below \<open>i\<close>.
\<close>

definition count_below :: "(nat \<Rightarrow> bool) \<Rightarrow> nat \<Rightarrow> nat" where
  "count_below P i = length (filter P [0..<i])"

definition new_ent :: "'p world \<Rightarrow> obj set \<Rightarrow> nat \<Rightarrow> nat" where
  "new_ent w R e = length (ents w) + count_below (\<lambda>i. EntObj i \<in> R) e"

definition new_comp :: "'p world \<Rightarrow> obj set \<Rightarrow> nat \<Rightarrow> nat" where
  "new_comp w R c = length (comps w) + count_below (\<lambda>i. CompObj i \<in> R) c"

definition new_map :: "'p world \<Rightarrow> obj set \<Rightarrow> nat \<Rightarrow> nat" where
  "new_map w R m = length (maps w) + count_below (\<lambda>i. MapObj i \<in> R) m"

definition new_eng :: "'p world \<Rightarrow> obj set \<Rightarrow> nat \<Rightarrow> nat" where
  "new_eng w R g = length (engines w) + count_below (\<lambda>i. EngObj i \<in> R) g"

fun new_owner :: "'p world \<Rightarrow> obj set \<Rightarrow> owner \<Rightarrow> owner" where
  "new_owner w R (MapRef m) = MapRef (new_map w R m)"
| "new_owner w R (InventoryRef c) = InventoryRef (new_comp w R c)"

fun memo :: "'p world \<Rightarrow> obj set \<Rightarrow> obj \<Rightarrow> obj" where
  "memo w R (EntObj e) = EntObj (new_ent w R e)"
| "memo w R (CompObj c) = CompObj (new_comp w R c)"
| "memo w R (MapObj m) = MapObj (new_map w R m)"
| "memo w R (EngObj g) = EngObj (new_eng w R g)"

text \<open>The copy of an object: its attributes, with every reference sent through the memo.
  Strings, numbers, tuples, the render order and the arrays of a map are copied as
  values.\<close>

definition copy_entity :: "'p world \<Rightarrow> obj set \<Rightarrow> Entity \<Rightarrow> Entity" where
  "copy_entity w R E =
     E\<lparr>parent := map_option (new_owner w R) (parent E),
       ai := map_option (new_comp w R) (ai E),
       fighter := map_option (new_comp w R) (fighter E),
       inventory := map_option (new_comp w R) (inventory E),
       consumable := map_option (new_comp w R) (consumable E),
       game_map_attr := map_option (new_map w R) (game_map_attr E)\<rparr>"

definition copy_comp :: "'p world \<Rightarrow> obj set \<Rightarrow> 'p component \<Rightarrow> 'p component" where
  "copy_comp w R C =
     C\<lparr>cparent := map_option (new_ent w R) (cparent C),
       held_items := map (new_ent w R) (held_items C)\<rparr>"

definition copy_map :: "'p world \<Rightarrow> obj set \<Rightarrow> GameMap \<Rightarrow> GameMap" where
  "copy_map w R M =
     M\<lparr>engine := new_eng w R (engine M), entities := new_ent w R ` entities M\<rparr>"

definition copy_engine :: "'p world \<Rightarrow> obj set \<Rightarrow> Engine \<Rightarrow> Engine" where
  "copy_engine w R G = G\<lparr>game_map := new_map w R (game_map G)\<rparr>"

text \<open>\<open>copy.deepcopy(t)\<close>: the store with the copies of all reachable objects appended, and
  the reference of the copy of \<open>t\<close>.\<close>

definition deepcopy :: "'p world \<Rightarrow> nat \<Rightarrow> 'p world \<times> nat" where
  "deepcopy w t =
     (let R = reachable w t
      in (w\<lparr>ents := ents w @
               map (\<lambda>e. copy_entity w R (ents w ! e))
                 (filter (\<lambda>i. EntObj i \<in> R) [0..<length (ents w)]),
             comps := comps w @
               map (\<lambda>c. copy_comp w R (comps w ! c))
                 (filter (\<lambda>i. CompObj i \<in> R) [0..<length (comps w)]),
             maps := maps w @
               map (\<lambda>m. copy_map w R (maps w ! m))
                 (filter (\<lambda>i. MapObj i \<in> R) [0..<length (maps w)]),
             engines := engines w @
               map (\<lambda>g. copy_engine w R (engines w ! g))
                 (filter (\<lambda>i. EngObj i \<in> R) [0..<length (engines w)])\<rparr>,
          new_ent w R t))"

text \<open>\<open>Entity.spawn\<close>.\<close>

definition spawn :: "'p world \<Rightarrow> nat \<Rightarrow> nat \<Rightarrow> int \<Rightarrow> int \<Rightarrow> 'p world \<times> nat" where
  "spawn w self gamemap x y =
     (let (w1, clone) = deepcopy w self;
          w2 = w1\<lparr>ents := (ents w1)[clone := (ents w1 ! clone)\<lparr>ent_x := x\<rparr>]\<rparr>;
          w3 = w2\<lparr>ents := (ents w2)[clone := (ents w2 ! clone)\<lparr>ent_y := y\<rparr>]\<rparr>;
          w4 = set_parent w3 clone gamemap
      in (entities_add w4 gamemap clone, clone))"

text \<open>
  \<open>Entity.place\<close>. The result is the exception raised, if any, and the world as the
  call leaves it: the position is assigned before anything can fail.

  \<open>self.gamemap\<close> is \<open>self.parent.gamemap\<close>. When the parent is a map \<open>p\<close> this is \<open>p\<close>
  itself, \<open>self.parent is self.gamemap\<close> holds and the entity is removed from the set of
  \<open>p\<close>. When the parent is an inventory, the property \<open>gamemap\<close> of class Inventory is
  evaluated; that class is not part of the sources, so its result is the parameter
  \<open>inventory_gamemap\<close> (an exception, or a map). An inventory is not a map, so the
  identity test fails and nothing is removed.
\<close>

definition place ::
  "(nat \<Rightarrow> error + nat) \<Rightarrow> 'p world \<Rightarrow> nat \<Rightarrow> int \<Rightarrow> int \<Rightarrow> nat option
     \<Rightarrow> (error + unit) \<times> 'p world" where
  "place inventory_gamemap w self x y gamemap =
     (let w1 = w\<lparr>ents := (ents w)[self := (ents w ! self)\<lparr>ent_x := x\<rparr>]\<rparr>;
          w2 = w1\<lparr>ents := (ents w1)[self := (ents w1 ! self)\<lparr>ent_y := y\<rparr>]\<rparr>
      in case gamemap of
           None \<Rightarrow> (Inr (), w2)
         | Some g \<Rightarrow>
            (case parent (ents w2 ! self) of
               None \<Rightarrow> (Inr (), entities_add (set_parent w2 self g) g self)
             | Some (MapRef p) \<Rightarrow>
                 (case entities_remove w2 p self of
                    Inl err \<Rightarrow> (Inl err, w2)
                  | Inr w3 \<Rightarrow> (Inr (), entities_add (set_parent w3 self g) g self))
             | Some (InventoryRef i) \<Rightarrow>
                 (case inventory_gamemap i of
                    Inl err \<Rightarrow> (Inl err, w2)
                  | Inr _ \<Rightarrow> (Inr (), entities_add (set_parent w2 self g) g self))))"

definition move :: "'p world \<Rightarrow> nat \<Rightarrow> int \<Rightarrow> int \<Rightarrow> 'p world" where
  "move w self dx dy =
     (let w1 = w\<lparr>ents := (ents w)[self := (ents w ! self)\<lparr>ent_x := ent_x (ents w ! self) + dx\<rparr>]\<rparr>
      in w1\<lparr>ents := (ents w1)[self := (ents w1 ! self)\<lparr>ent_y := ent_y (ents w1 ! self) + dy\<rparr>]\<rparr>)"

section \<open>actions.py\<close>

text \<open>
  \<open>Action.engine\<close> is \<open>self.entity.game_map.engine\<close>. Class Entity defines the property
  \<open>gamemap\<close> and the attribute \<open>parent\<close>, and no \<open>game_map\<close>: the lookup raises
  AttributeError unless the object carries an instance attribute of that name.
\<close>

definition Action_engine :: "'p world \<Rightarrow> nat \<Rightarrow> error + nat" where
  "Action_engine w entity =
     (case game_map_attr (ents w ! entity) of
        None \<Rightarrow> Inl (AttributeError ''game_map'')
      | Some m \<Rightarrow> Inr (engine (maps w ! m)))"

definition Action_perform :: "'p world \<Rightarrow> nat \<Rightarrow> (error + unit) \<times> 'p world" where
  "Action_perform w entity = (Inl NotImplementedError, w)"

definition dest_xy :: "'p world \<Rightarrow> nat \<Rightarrow> int \<Rightarrow> int \<Rightarrow> int \<times> int" where
  "dest_xy w entity dx dy = (ent_x (ents w ! entity) + dx, ent_y (ents w ! entity) + dy)"

text \<open>
  \<open>es\<close> is the order in which Python enumerates the entity set of the engine's map,
  \<open>self.engine.game_map.entities\<close>. No action changes an entity set, so the order is
  the same for every query of one \<open>perform\<close>.
\<close>

definition blocking_entity :: "'p world \<Rightarrow> nat list \<Rightarrow> nat \<Rightarrow> int \<Rightarrow> int \<Rightarrow> error + nat option" where
  "blocking_entity w es entity dx dy =
     (case Action_engine w entity of
        Inl err \<Rightarrow> Inl err
      | Inr g \<Rightarrow>
          Inr (get_blocking_entity_at_location w es
                 (fst (dest_xy w entity dx dy)) (snd (dest_xy w entity dx dy))))"

definition EscapeAction_perform :: "'p world \<Rightarrow> nat \<Rightarrow> (error + unit) \<times> 'p world" where
  "EscapeAction_perform w entity = (Inl SystemExit, w)"

text \<open>An entity object is truthy, so \<open>if get_blocking_entity_at_location(...)\<close> tests
  that the result is not \<open>None\<close>.\<close>

definition MovementAction_perform ::
  "'p world \<Rightarrow> nat list \<Rightarrow> nat \<Rightarrow> int \<Rightarrow> int \<Rightarrow> (error + unit) \<times> 'p world" where
  "MovementAction_perform w es entity dx dy =
     (let (dest_x, dest_y) = dest_xy w entity dx dy
      in case Action_engine w entity of
           Inl err \<Rightarrow> (Inl err, w)
         | Inr g \<Rightarrow>
             (let gm = maps w ! game_map (engines w ! g)
              in if \<not> in_bounds gm dest_x dest_y then (Inr (), w)
                 else if \<not> walkable (tiles gm dest_x dest_y) then (Inr (), w)
                 else if get_blocking_entity_at_location w es dest_x dest_y \<noteq> None
                   then (Inr (), w)
                 else (Inr (), move w entity dx dy)))"

definition kick_message :: "string \<Rightarrow> string" where
  "kick_message target_name = ''You kick the '' @ target_name @ '', much to its annoyance!''"

definition MeleeAction_perform ::
  "'p world \<Rightarrow> nat list \<Rightarrow> nat \<Rightarrow> int \<Rightarrow> int \<Rightarrow> (error + unit) \<times> 'p world" where
  "MeleeAction_perform w es entity dx dy =
     (case blocking_entity w es entity dx dy of
        Inl err \<Rightarrow> (Inl err, w)
      | Inr None \<Rightarrow> (Inr (), w)
      | Inr (Some target) \<Rightarrow>
          (Inr (), w\<lparr>stdout := stdout w @ [kick_message (name (ents w ! target))]\<rparr>))"

definition BumpAction_perform ::
  "'p world \<Rightarrow> nat list \<Rightarrow> nat \<Rightarrow> int \<Rightarrow> int \<Rightarrow> (error + unit) \<times> 'p world" where
  "BumpAction_perform w es entity dx dy =
     (case blocking_entity w es entity dx dy of
        Inl err \<Rightarrow> (Inl err, w)
      | Inr (Some _) \<Rightarrow> MeleeAction_perform w es entity dx dy
      | Inr None \<Rightarrow> MovementAction_perform w es entity dx dy)"

section \<open>Predicates of the specification and example worlds\<close>

text \<open>A living actor at a coordinate: what \<open>actors\<close> keeps and the scan compares.\<close>

definition living_actor_at :: "'p world \<Rightarrow> int \<Rightarrow> int \<Rightarrow> nat \<Rightarrow> bool" where
  "living_actor_at w x y e \<longleftrightarrow>
     cls (ents w ! e) = ActorCls \<and> is_alive (ents w ! e)
     \<and> ent_x (ents w ! e) = x \<and> ent_y (ents w ! e) = y"

text \<open>
  Two actors built by \<open>Actor.__init__\<close> at (3, 4); the first (reference 0) has its AI
  handle cleared afterwards, the second (reference 1) is alive.
\<close>

definition dead_and_living :: "nat world" where
  "dead_and_living =
     (let w0 = \<lparr>ents = [], maps = [], engines = [],
                 comps = [\<lparr>cparent = None, held_items = [], payload = 10\<rparr>,
                          \<lparr>cparent = None, held_items = [], payload = 0\<rparr>,
                          \<lparr>cparent = None, held_items = [], payload = 10\<rparr>,
                          \<lparr>cparent = None, held_items = [], payload = 0\<rparr>],
                 stdout = []\<rparr>;
          (w1, d) = Actor_init w0 3 4 ''o'' (63, 127, 63) ''Orc'' 0 0 1;
          (w2, l) = Actor_init w1 3 4 ''T'' (0, 127, 0) ''Troll'' 0 2 3
      in w2\<lparr>ents := (ents w2)[d := (ents w2 ! d)\<lparr>ai := None\<rparr>]\<rparr>)"

text \<open>A movement-blocking entity at a coordinate: the test of the loop of
  \<open>get_blocking_entity_at_location\<close>.\<close>

definition blocker_at :: "'p world \<Rightarrow> int \<Rightarrow> int \<Rightarrow> nat \<Rightarrow> bool" where
  "blocker_at w x y e \<longleftrightarrow>
     blocks_movement (ents w ! e) \<and> ent_x (ents w ! e) = x \<and> ent_y (ents w ! e) = y"

text \<open>
  The scenario of the specification: a 10 by 10 map (reference 0) of an engine (reference
  0), every tile made walkable after construction (map generation is outside the
  sources), and one actor (reference 0) built by \<open>Actor.__init__\<close> and put at (5, 5)
  with \<open>place\<close>.
\<close>

definition arena :: "nat world" where
  "arena =
     (let w0 = \<lparr>ents = [], maps = [], engines = [\<lparr>game_map = 0\<rparr>],
                 comps = [\<lparr>cparent = None, held_items = [], payload = 30\<rparr>,
                          \<lparr>cparent = None, held_items = [], payload = 26\<rparr>],
                 stdout = []\<rparr>;
          (w1, m) = GameMap_init w0 0 10 10 [] \<lparr>walkable = False\<rparr>;
          w2 = w1\<lparr>maps := (maps w1)[m := (maps w1 ! m)\<lparr>tiles := (\<lambda>_ _. \<lparr>walkable = True\<rparr>)\<rparr>]\<rparr>;
          (w3, a) = Actor_init w2 0 0 ''@'' (255, 255, 255) ''Player'' 0 0 1
      in snd (place (\<lambda>_. Inl (AttributeError ''gamemap'')) w3 a 5 5 (Some m)))"

text \<open>
  The same map with a second actor (reference 1) placed at (7, 5), and with an instance
  attribute \<open>game_map\<close> assigned on both actors from outside, so that \<open>Action.engine\<close>
  resolves.
\<close>

definition duel :: "nat world" where
  "duel =
     (let w0 = arena\<lparr>comps := comps arena @
                  [\<lparr>cparent = None, held_items = [], payload = 10\<rparr>,
                   \<lparr>cparent = None, held_items = [], payload = 0\<rparr>]\<rparr>;
          (w1, b) = Actor_init w0 0 0 ''o'' (63, 127, 63) ''Orc'' 0 3 4;
          w2 = snd (place (\<lambda>_. Inl (AttributeError ''gamemap'')) w1 b 7 5 (Some 0));
          w3 = w2\<lparr>ents := (ents w2)[0 := (ents w2 ! 0)\<lparr>game_map_attr := Some 0\<rparr>]\<rparr>
      in w3\<lparr>ents := (ents w3)[b := (ents w3 ! b)\<lparr>game_map_attr := Some 0\<rparr>]\<rparr>)"

text \<open>For worlds without inventories: the \<open>gamemap\<close> of an inventory is never asked for.\<close>

definition no_inventory :: "nat \<Rightarrow> error + nat" where
  "no_inventory i = Inl (AttributeError ''gamemap'')"

text \<open>
  An entity built without a parent (reference 0) and handed to the constructor of a first
  map (reference 0), which registers it; a second, empty map (reference 1).
\<close>

definition two_maps :: "nat world" where
  "two_maps =
     (let w0 = \<lparr>ents = [], maps = [], engines = [\<lparr>game_map = 0\<rparr>], comps = [], stdout = []\<rparr>;
          (w1, e) = Entity_init w0 ''Chest'' ''c'' (127, 63, 0) 2 2 False None CORPSE;
          (w2, m1) = GameMap_init w1 0 10 10 [e] \<lparr>walkable = False\<rparr>;
          (w3, m2) = GameMap_init w2 0 10 10 [] \<lparr>walkable = False\<rparr>
      in w3)"

text \<open>The world \<open>arena\<close> with a second, empty map (reference 1).\<close>

definition two_levels :: "nat world" where
  "two_levels = fst (GameMap_init arena 0 10 10 [] \<lparr>walkable = False\<rparr>)"

text \<open>The world after the two assignments \<open>self.x = x; self.y = y\<close> that start \<open>place\<close>.\<close>

definition positioned :: "'p world \<Rightarrow> nat \<Rightarrow> int \<Rightarrow> int \<Rightarrow> 'p world" where
  "positioned w e x y = w\<lparr>ents := (ents w)[e := (ents w ! e)\<lparr>ent_x := x, ent_y := y\<rparr>]\<rparr>"

text \<open>A world with one engine, two components not yet attached to an actor, and one
  10 by 10 map without entities.\<close>

definition lobby :: "nat world" where
  "lobby =
     (let w0 = \<lparr>ents = [], maps = [], engines = [\<lparr>game_map = 0\<rparr>],
                 comps = [\<lparr>cparent = None, held_items = [], payload = 30\<rparr>,
                          \<lparr>cparent = None, held_items = [], payload = 26\<rparr>],
                 stdout = []\<rparr>
      in fst (GameMap_init w0 0 10 10 [] \<lparr>walkable = True\<rparr>))"

text \<open>\<open>lobby\<close> after \<open>Actor.__init__\<close> has built an actor (reference 0) from the two
  components; the actor has no parent.\<close>

definition troupe :: "nat world" where
  "troupe = fst (Actor_init lobby 0 0 ''@'' (255, 255, 255) ''Player'' 0 0 1)"

text \<open>The actor of \<open>troupe\<close> later in its life: moved to (5, 5), owned by map 0, and dead
  (AI handle cleared).\<close>

definition corpse :: "nat world" where
  "corpse =
     troupe\<lparr>ents := (ents troupe)[0 := (ents troupe ! 0)
               \<lparr>ent_x := 5, ent_y := 5, parent := Some (MapRef 0), ai := None\<rparr>]\<rparr>"

text \<open>An object of the world \<open>w'\<close> that did not exist in the world \<open>w\<close>.\<close>

fun is_new :: "'p world \<Rightarrow> 'p world \<Rightarrow> obj \<Rightarrow> bool" where
  "is_new w w' (EntObj e) \<longleftrightarrow> length (ents w) \<le> e \<and> e < length (ents w')"
| "is_new w w' (CompObj c) \<longleftrightarrow> length (comps w) \<le> c \<and> c < length (comps w')"
| "is_new w w' (MapObj m) \<longleftrightarrow> length (maps w) \<le> m \<and> m < length (maps w')"
| "is_new w w' (EngObj g) \<longleftrightarrow> length (engines w) \<le> g \<and> g < length (engines w')"

text \<open>
  Two actors built by \<open>Actor.__init__\<close> from one and the same Fighter (component 0): the
  Fighter's back-reference leads to the second actor, so the second actor can be reached
  from the first.
\<close>

definition shared :: "nat world" where
  "shared =
     (let w0 = \<lparr>ents = [], maps = [], engines = [\<lparr>game_map = 0\<rparr>],
                 comps = [\<lparr>cparent = None, held_items = [], payload = 10\<rparr>,
                          \<lparr>cparent = None, held_items = [], payload = 26\<rparr>,
                          \<lparr>cparent = None, held_items = [], payload = 27\<rparr>],
                 stdout = []\<rparr>;
          w1 = fst (GameMap_init w0 0 10 10 [] \<lparr>walkable = True\<rparr>);
          (w2, a) = Actor_init w1 0 0 ''o'' (63, 127, 63) ''Orc'' 0 0 1;
          (w3, b) = Actor_init w2 0 0 ''T'' (0, 127, 0) ''Troll'' 0 0 2
      in w3)"

section \<open>Actors at a location\<close>

lemma actor_scan_find:
  "\<forall>a\<in>set as. is_alive (ents w ! a) \<Longrightarrow>
   actor_scan w as x y = List.find (\<lambda>a. ent_x (ents w ! a) = x \<and> ent_y (ents w ! a) = y) as"
  by (induction as) auto

text \<open>The scan runs over living actors only, so its inner test for a dead actor never
  fires: the result is the first living actor at the coordinate.\<close>

lemma get_actor_find:
  "get_actor_at_location w es x y = List.find (living_actor_at w x y) es"
proof -
  have "get_actor_at_location w es x y =
        List.find (\<lambda>a. ent_x (ents w ! a) = x \<and> ent_y (ents w ! a) = y) (actors w es)"
    unfolding get_actor_at_location_def by (rule actor_scan_find) (simp add: actors_def)
  also have "\<dots> = List.find (living_actor_at w x y) es"
    unfolding actors_def by (induction es) (auto simp: living_actor_at_def)
  finally show ?thesis .
qed

lemma get_actor_None:
  "get_actor_at_location w es x y = None \<longleftrightarrow> (\<forall>e\<in>set es. \<not> living_actor_at w x y e)"
  by (auto simp: get_actor_find find_None_iff)

lemma get_actor_Some:
  "get_actor_at_location w es x y = Some a \<Longrightarrow> a \<in> set es \<and> living_actor_at w x y a"
  by (auto simp: get_actor_find find_Some_iff)

lemma get_actor_skips:
  "\<not> living_actor_at w x y d \<Longrightarrow>
   get_actor_at_location w (d # rest) x y = get_actor_at_location w rest x y"
  by (simp add: get_actor_find)

lemma dead_first_example: "get_actor_at_location dead_and_living [0, 1] 3 4 = Some 1"
  by (simp add: dead_and_living_def Actor_init_def Entity_new_def set_cparent_def Let_def
      get_actor_at_location_def actors_def is_alive_def)

text \<open>
  C7. For every map, iteration order \<open>es\<close> of its entity set and coordinate (x, y):
  \<open>get_actor_at_location\<close> returns none when no actor of the set is at (x, y); it returns
  the actor \<open>a\<close> when \<open>a\<close> is the one living actor at (x, y); and it returns none when
  every actor at (x, y) is dead.
\<close>

theorem get_actor_at_location_cases:
  "((\<forall>e\<in>set es. cls (ents w ! e) = ActorCls \<longrightarrow>
        \<not> (ent_x (ents w ! e) = x \<and> ent_y (ents w ! e) = y))
     \<longrightarrow> get_actor_at_location w es x y = None)
   \<and> (a \<in> set es \<and> living_actor_at w x y a
        \<and> (\<forall>b\<in>set es. living_actor_at w x y b \<longrightarrow> b = a)
     \<longrightarrow> get_actor_at_location w es x y = Some a)
   \<and> ((\<forall>e\<in>set es. cls (ents w ! e) = ActorCls \<and> ent_x (ents w ! e) = x
           \<and> ent_y (ents w ! e) = y \<longrightarrow> \<not> is_alive (ents w ! e))
     \<longrightarrow> get_actor_at_location w es x y = None)"
proof (intro conjI impI)
  assume "\<forall>e\<in>set es. cls (ents w ! e) = ActorCls \<longrightarrow>
        \<not> (ent_x (ents w ! e) = x \<and> ent_y (ents w ! e) = y)"
  then show "get_actor_at_location w es x y = None"
    by (auto simp: get_actor_None living_actor_at_def)
next
  assume "\<forall>e\<in>set es. cls (ents w ! e) = ActorCls \<and> ent_x (ents w ! e) = x
           \<and> ent_y (ents w ! e) = y \<longrightarrow> \<not> is_alive (ents w ! e)"
  then show "get_actor_at_location w es x y = None"
    by (auto simp: get_actor_None living_actor_at_def)
next
  assume h: "a \<in> set es \<and> living_actor_at w x y a
        \<and> (\<forall>b\<in>set es. living_actor_at w x y b \<longrightarrow> b = a)"
  then have "get_actor_at_location w es x y \<noteq> None" by (auto simp: get_actor_None)
  then obtain b where b: "get_actor_at_location w es x y = Some b" by auto
  from get_actor_Some[OF b] h have "b = a" by auto
  with b show "get_actor_at_location w es x y = Some a" by simp
qed

theorem get_actor_at_location_cases_witness:
  "get_actor_at_location dead_and_living [0, 1] 0 0 = None
   \<and> get_actor_at_location dead_and_living [0, 1] 3 4 = Some 1
   \<and> get_actor_at_location dead_and_living [0] 3 4 = None"
  using get_actor_at_location_cases [of "[0, 1]" dead_and_living 0 0 1]
        get_actor_at_location_cases [of "[0, 1]" dead_and_living 3 4 1]
        get_actor_at_location_cases [of "[0]" dead_and_living 3 4 1]
  by (simp add: dead_and_living_def Actor_init_def Entity_new_def set_cparent_def Let_def
      living_actor_at_def is_alive_def)

text \<open>
  C3, as amended. For every map state in which a dead actor \<open>d\<close> and a living actor \<open>l\<close>
  are both at (x, y), and every iteration order that meets \<open>d\<close> first:
  \<open>get_actor_at_location\<close> does not stop at \<open>d\<close>; it returns a living actor at (x, y)
  found in the rest of the order.
\<close>

theorem get_actor_at_location_skips_dead:
  assumes "cls (ents w ! d) = ActorCls" and "\<not> is_alive (ents w ! d)"
    and "ent_x (ents w ! d) = x" and "ent_y (ents w ! d) = y"
    and "l \<in> set rest" and "living_actor_at w x y l"
  shows "\<exists>a. get_actor_at_location w (d # rest) x y = Some a \<and> a \<in> set rest
             \<and> living_actor_at w x y a"
proof -
  from assms(2) have nd: "\<not> living_actor_at w x y d" by (simp add: living_actor_at_def)
  from assms(5,6) have "get_actor_at_location w rest x y \<noteq> None"
    by (auto simp: get_actor_None)
  then obtain a where a: "get_actor_at_location w rest x y = Some a" by auto
  with get_actor_Some[OF a] get_actor_skips[OF nd] show ?thesis by auto
qed

theorem get_actor_at_location_skips_dead_witness:
  "get_actor_at_location dead_and_living [0, 1] 3 4 = Some 1"
  using get_actor_at_location_skips_dead [of dead_and_living 0 3 4 1 "[1]"]
  by (auto simp: dead_and_living_def Actor_init_def Entity_new_def set_cparent_def Let_def
      living_actor_at_def is_alive_def)

text \<open>
  C3 as stated fails: there is no map state with a dead and a living actor at (x, y) in
  which every iteration order that meets the dead actor first makes
  \<open>get_actor_at_location\<close> return none. (In \<open>dead_and_living\<close>, with the dead actor 0
  first, the result is the living actor 1: lemma \<open>dead_first_example\<close>.)
\<close>

theorem get_actor_at_location_short_circuit_counterexample:
  "\<not> (\<exists>(w :: nat world) S d l x y.
        finite S \<and> d \<in> S \<and> l \<in> S
        \<and> cls (ents w ! d) = ActorCls \<and> \<not> is_alive (ents w ! d)
        \<and> ent_x (ents w ! d) = x \<and> ent_y (ents w ! d) = y
        \<and> living_actor_at w x y l
        \<and> (\<forall>es. set es = S \<and> distinct es \<and> hd es = d
               \<longrightarrow> get_actor_at_location w es x y = None))"
proof
  assume "\<exists>(w :: nat world) S d l x y.
        finite S \<and> d \<in> S \<and> l \<in> S
        \<and> cls (ents w ! d) = ActorCls \<and> \<not> is_alive (ents w ! d)
        \<and> ent_x (ents w ! d) = x \<and> ent_y (ents w ! d) = y
        \<and> living_actor_at w x y l
        \<and> (\<forall>es. set es = S \<and> distinct es \<and> hd es = d
               \<longrightarrow> get_actor_at_location w es x y = None)"
  then obtain w :: "nat world" and S d l x y where
    fin: "finite S" and d: "d \<in> S" and l: "l \<in> S"
    and liv: "living_actor_at w x y l"
    and all: "\<forall>es. set es = S \<and> distinct es \<and> hd es = d
               \<longrightarrow> get_actor_at_location w es x y = None"
    by blast
  from fin have "finite (S - {d})" by simp
  then obtain rest where rest: "set rest = S - {d}" "distinct rest"
    using finite_distinct_list by blast
  with d have "set (d # rest) = S" "distinct (d # rest)" "hd (d # rest) = d" by auto
  with all have "get_actor_at_location w (d # rest) x y = None" by blast
  moreover from l \<open>set (d # rest) = S\<close> have "l \<in> set (d # rest)" by simp
  ultimately show False using liv by (auto simp: get_actor_None)
qed

section \<open>Actions\<close>

lemmas build_defs = GameMap_init_def Actor_init_def Entity_new_def set_cparent_def place_def
  set_parent_def entities_add_def entities_remove_def Let_def


lemma get_blocking_find:
  "get_blocking_entity_at_location w es x y = List.find (blocker_at w x y) es"
  by (induction es) (auto simp: blocker_at_def)

lemma get_blocking_None:
  "get_blocking_entity_at_location w es x y = None \<longleftrightarrow> (\<forall>e\<in>set es. \<not> blocker_at w x y e)"
  by (auto simp: get_blocking_find find_None_iff)

lemma get_blocking_Some:
  "get_blocking_entity_at_location w es x y = Some b \<Longrightarrow> b \<in> set es \<and> blocker_at w x y b"
  by (auto simp: get_blocking_find find_Some_iff)

text \<open>
  C2. For every entity, displacement and world: the outcome of \<open>BumpAction.perform\<close> (the
  exception raised or the normal return, and the world it leaves, output included) is
  that of \<open>MeleeAction.perform\<close> when a blocking entity of the iterated set is at the
  destination, and that of \<open>MovementAction.perform\<close> otherwise.
\<close>

theorem BumpAction_dispatch:
  "BumpAction_perform w es entity dx dy =
     (if \<exists>b\<in>set es. blocker_at w (fst (dest_xy w entity dx dy)) (snd (dest_xy w entity dx dy)) b
      then MeleeAction_perform w es entity dx dy
      else MovementAction_perform w es entity dx dy)"
proof (cases "Action_engine w entity")
  case (Inl err)
  then show ?thesis
    by (simp add: BumpAction_perform_def MeleeAction_perform_def MovementAction_perform_def
        blocking_entity_def split: prod.splits)
next
  case (Inr g)
  show ?thesis
  proof (cases "get_blocking_entity_at_location w es
                  (fst (dest_xy w entity dx dy)) (snd (dest_xy w entity dx dy))")
    case None
    then have "\<not> (\<exists>b\<in>set es. blocker_at w (fst (dest_xy w entity dx dy))
                      (snd (dest_xy w entity dx dy)) b)"
      by (simp add: get_blocking_None)
    with Inr None show ?thesis
      by (simp add: BumpAction_perform_def blocking_entity_def)
  next
    case (Some b)
    from get_blocking_Some[OF Some]
    have "\<exists>b\<in>set es. blocker_at w (fst (dest_xy w entity dx dy))
                      (snd (dest_xy w entity dx dy)) b"
      by blast
    with Inr Some show ?thesis
      by (simp add: BumpAction_perform_def blocking_entity_def)
  qed
qed


text \<open>
  An entity without the instance attribute \<open>game_map\<close> makes \<open>Action.engine\<close> raise
  AttributeError, and with it every directional action, before anything is read from the
  map. Every entity built by the constructors of entity.py is such an entity.
\<close>

lemma no_game_map_attr:
  assumes "game_map_attr (ents w ! entity) = None"
  shows "MovementAction_perform w es entity dx dy = (Inl (AttributeError ''game_map''), w)"
    and "MeleeAction_perform w es entity dx dy = (Inl (AttributeError ''game_map''), w)"
    and "BumpAction_perform w es entity dx dy = (Inl (AttributeError ''game_map''), w)"
  using assms
  by (simp_all add: MovementAction_perform_def MeleeAction_perform_def BumpAction_perform_def
      blocking_entity_def Action_engine_def split: prod.splits)

text \<open>
  With the attribute present, \<open>MovementAction.perform\<close> returns normally and moves the
  entity exactly when the destination is in bounds, walkable and free of blocking
  entities.
\<close>

lemma MovementAction_resolved:
  assumes "game_map_attr (ents w ! entity) = Some m"
    and "gm = maps w ! game_map (engines w ! engine (maps w ! m))"
    and "dest_xy w entity dx dy = (dest_x, dest_y)"
  shows "MovementAction_perform w es entity dx dy =
     (Inr (), if in_bounds gm dest_x dest_y \<and> walkable (tiles gm dest_x dest_y)
                  \<and> (\<forall>b\<in>set es. \<not> blocker_at w dest_x dest_y b)
              then move w entity dx dy else w)"
  using assms
  by (auto simp: MovementAction_perform_def Action_engine_def Let_def get_blocking_None)

text \<open>With the attribute present, the three directional actions always return normally;
  a \<open>MeleeAction\<close> without a target leaves the world as it was.\<close>

lemma perform_returns_when_resolved:
  assumes "game_map_attr (ents w ! entity) = Some m"
  shows "fst (MovementAction_perform w es entity dx dy) = Inr ()"
    and "fst (MeleeAction_perform w es entity dx dy) = Inr ()"
    and "fst (BumpAction_perform w es entity dx dy) = Inr ()"
    and "get_blocking_entity_at_location w es (fst (dest_xy w entity dx dy))
           (snd (dest_xy w entity dx dy)) = None
         \<Longrightarrow> MeleeAction_perform w es entity dx dy = (Inr (), w)"
  using assms
  by (auto simp: MovementAction_perform_def MeleeAction_perform_def BumpAction_perform_def
      blocking_entity_def Action_engine_def Let_def split: prod.splits option.splits)

lemma arena_facts:
  "game_map_attr (ents arena ! 0) = None"
  "ent_x (ents arena ! 0) = 5" "ent_y (ents arena ! 0) = 5"
  "entities (maps arena ! 0) = {0}"
  "in_bounds (maps arena ! 0) 6 5" "walkable (tiles (maps arena ! 0) 6 5)"
  "\<not> in_bounds (maps arena ! 0) 15 5"
  by (simp_all add: arena_def build_defs in_bounds_def)

text \<open>
  C1 at the scenario of the specification. The actor is at (5, 5) on the 10 by 10 map, the
  destination (6, 5) is in bounds, walkable and free, so C1 has the actor move to (6, 5).
  \<open>MovementAction(actor, 1, 0).perform()\<close> raises AttributeError instead and leaves the
  world, and the actor's position, as they were.
\<close>

theorem MovementAction_perform_raises:
  "ent_x (ents arena ! 0) = 5 \<and> ent_y (ents arena ! 0) = 5
   \<and> entities (maps arena ! 0) = {0}
   \<and> in_bounds (maps arena ! 0) 6 5 \<and> walkable (tiles (maps arena ! 0) 6 5)
   \<and> get_blocking_entity_at_location arena [0] 6 5 = None
   \<and> MovementAction_perform arena [0] 0 1 0 = (Inl (AttributeError ''game_map''), arena)"
  by (simp add: arena_facts no_game_map_attr)

text \<open>
  C6 at the same scenario. An out-of-bounds attempt by \<open>MovementAction\<close> and by
  \<open>BumpAction\<close>, and a \<open>MeleeAction\<close> with no target, do not return normally: each
  exits with AttributeError.
\<close>

theorem perform_illegal_attempt_raises:
  "\<not> in_bounds (maps arena ! 0) 15 5
   \<and> MovementAction_perform arena [0] 0 10 0 = (Inl (AttributeError ''game_map''), arena)
   \<and> BumpAction_perform arena [0] 0 10 0 = (Inl (AttributeError ''game_map''), arena)
   \<and> get_blocking_entity_at_location arena [0] 6 5 = None
   \<and> MeleeAction_perform arena [0] 0 1 0 = (Inl (AttributeError ''game_map''), arena)
   \<and> EscapeAction_perform arena 0 = (Inl SystemExit, arena)"
  by (simp add: arena_facts no_game_map_attr EscapeAction_perform_def)

lemma duel_facts:
  "game_map_attr (ents duel ! 0) = Some 0"
  "ent_x (ents duel ! 0) = 5" "ent_y (ents duel ! 0) = 5"
  "ent_x (ents duel ! Suc 0) = 7" "ent_y (ents duel ! Suc 0) = 5"
  "blocks_movement (ents duel ! 0)" "blocks_movement (ents duel ! Suc 0)"
  "name (ents duel ! Suc 0) = ''Orc''"
  "entities (maps duel ! 0) = {0, 1}"
  "engine (maps duel ! 0) = 0" "game_map (engines duel ! 0) = 0"
  "width (maps duel ! 0) = 10" "height (maps duel ! 0) = 10"
  "walkable (tiles (maps duel ! 0) 6 5)"
  by (simp_all add: duel_def arena_def build_defs insert_commute)

theorem BumpAction_dispatch_witness:
  "BumpAction_perform duel [0, 1] 0 1 0 = MovementAction_perform duel [0, 1] 0 1 0
   \<and> BumpAction_perform duel [0, 1] 0 2 0 = MeleeAction_perform duel [0, 1] 0 2 0"
  using BumpAction_dispatch [of duel "[0, 1]" 0 1 0] BumpAction_dispatch [of duel "[0, 1]" 0 2 0]
  by (simp add: duel_facts dest_xy_def blocker_at_def)

lemma duel_example:
  "MovementAction_perform duel [0, 1] 0 1 0 = (Inr (), move duel 0 1 0)"
  "MeleeAction_perform duel [0, 1] 0 2 0 =
     (Inr (), duel\<lparr>stdout := stdout duel @ [''You kick the Orc, much to its annoyance!'']\<rparr>)"
  by (simp_all add: MovementAction_perform_def MeleeAction_perform_def blocking_entity_def
      Action_engine_def dest_xy_def duel_facts in_bounds_def kick_message_def)

section \<open>Placing entities\<close>

lemma maps_set_parent: "maps (set_parent w e g) = maps w"
  by (simp add: set_parent_def)

lemma ents_set_parent:
  "ents (set_parent w e g) = (ents w)[e := (ents w ! e)\<lparr>parent := Some (MapRef g)\<rparr>]"
  by (simp add: set_parent_def)

lemma ents_entities_add: "ents (entities_add w g e) = ents w"
  by (simp add: entities_add_def)

lemma length_maps_entities_add: "length (maps (entities_add w g e)) = length (maps w)"
  by (simp add: entities_add_def)

lemma entities_entities_add:
  "entities (maps (entities_add w g e) ! m) =
     (if m = g \<and> g < length (maps w) then insert e (entities (maps w ! g))
      else entities (maps w ! m))"
  by (cases "g < length (maps w)")
     (simp_all add: entities_add_def nth_list_update list_update_beyond)

lemma maps_entities_add_other: "m \<noteq> g \<Longrightarrow> maps (entities_add w g e) ! m = maps w ! m"
  by (simp add: entities_add_def)

lemma entities_remove_Inr:
  assumes "entities_remove w p e = Inr w3"
  shows "e \<in> entities (maps w ! p)" and "ents w3 = ents w"
    and "length (maps w3) = length (maps w)"
    and "entities (maps w3 ! m) =
           (if m = p \<and> p < length (maps w) then entities (maps w ! p) - {e}
            else entities (maps w ! m))"
  using assms
  by (cases "p < length (maps w)";
      auto simp: entities_remove_def nth_list_update list_update_beyond split: if_splits)+

lemma entities_remove_iff:
  "(\<exists>w3. entities_remove w p e = Inr w3) \<longleftrightarrow> e \<in> entities (maps w ! p)"
  by (simp add: entities_remove_def)

lemma positioned_simps:
  "maps (positioned w e x y) = maps w"
  "e < length (ents w) \<Longrightarrow> parent (ents (positioned w e x y) ! e) = parent (ents w ! e)"
  "ents (positioned w e x y) = (ents w)[e := (ents w ! e)\<lparr>ent_x := x, ent_y := y\<rparr>]"
  by (simp_all add: positioned_def)

lemma place_unfold:
  assumes "e < length (ents w)"
  shows "place ig w e x y gm =
     (case gm of
        None \<Rightarrow> (Inr (), positioned w e x y)
      | Some g \<Rightarrow>
         (case parent (ents w ! e) of
            None \<Rightarrow> (Inr (), entities_add (set_parent (positioned w e x y) e g) g e)
          | Some (MapRef p) \<Rightarrow>
              (case entities_remove (positioned w e x y) p e of
                 Inl err \<Rightarrow> (Inl err, positioned w e x y)
               | Inr w3 \<Rightarrow> (Inr (), entities_add (set_parent w3 e g) g e))
          | Some (InventoryRef i) \<Rightarrow>
              (case ig i of
                 Inl err \<Rightarrow> (Inl err, positioned w e x y)
               | Inr _ \<Rightarrow> (Inr (), entities_add (set_parent (positioned w e x y) e g) g e))))"
  using assms
  by (cases gm; cases "parent (ents w ! e)")
     (auto simp: place_def positioned_def Let_def split: owner.splits sum.splits)

lemma place_ents:
  assumes "e < length (ents w)"
  shows "\<exists>par. ents (snd (place ig w e x y gm)) =
           (ents w)[e := (ents w ! e)\<lparr>ent_x := x, ent_y := y, parent := par\<rparr>]"
proof -
  let ?P = "\<lambda>w'. \<exists>par. ents w' =
           (ents w)[e := (ents w ! e)\<lparr>ent_x := x, ent_y := y, parent := par\<rparr>]"
  have pos: "?P (positioned w e x y)"
    by (rule exI[of _ "parent (ents w ! e)"]) (simp add: positioned_def)
  have sp: "?P (entities_add (set_parent w3 e g) g e)"
    if "ents w3 = ents (positioned w e x y)" for w3 g
    by (rule exI[of _ "Some (MapRef g)"])
       (simp add: ents_entities_add ents_set_parent that positioned_def assms)
  show ?thesis
  proof (cases gm)
    case None
    with pos show ?thesis by (simp add: place_unfold[OF assms])
  next
    case (Some g)
    show ?thesis
    proof (cases "parent (ents w ! e)")
      case None
      with Some sp[OF refl] show ?thesis by (simp add: place_unfold[OF assms])
    next
      case (Some own)
      show ?thesis
      proof (cases own)
        case (MapRef p)
        show ?thesis
        proof (cases "entities_remove (positioned w e x y) p e")
          case (Inl err)
          with \<open>gm = Some g\<close> \<open>parent (ents w ! e) = Some own\<close> MapRef pos
          show ?thesis by (simp add: place_unfold[OF assms])
        next
          case (Inr w3)
          from entities_remove_Inr(2)[OF Inr] have "?P (entities_add (set_parent w3 e g) g e)"
            by (rule sp)
          with \<open>gm = Some g\<close> \<open>parent (ents w ! e) = Some own\<close> MapRef Inr
          show ?thesis by (simp add: place_unfold[OF assms])
        qed
      next
        case (InventoryRef i)
        with \<open>gm = Some g\<close> \<open>parent (ents w ! e) = Some own\<close> pos sp[OF refl]
        show ?thesis by (cases "ig i") (simp_all add: place_unfold[OF assms])
      qed
    qed
  qed
qed

lemma place_other_entity:
  assumes "e < length (ents w)" and "b \<noteq> e"
  shows "ents (snd (place ig w e x y gm)) ! b = ents w ! b"
  using place_ents[OF assms(1), of ig x y gm] assms(2) by auto

lemma place_self_entity:
  assumes "e < length (ents w)"
  shows "ent_x (ents (snd (place ig w e x y gm)) ! e) = x"
    and "ent_y (ents (snd (place ig w e x y gm)) ! e) = y"
    and "blocks_movement (ents (snd (place ig w e x y gm)) ! e) = blocks_movement (ents w ! e)"
    and "length (ents (snd (place ig w e x y gm))) = length (ents w)"
  using place_ents[OF assms, of ig x y gm] assms by auto

lemma place_Some_entities:
  assumes ok: "place ig w e x y (Some g) = (Inr (), w')"
    and e: "e < length (ents w)" and g: "g < length (maps w)"
  shows "entities (maps w' ! g) = insert e (entities (maps w ! g))"
proof (cases "parent (ents w ! e)")
  case None
  with ok have "w' = entities_add (set_parent (positioned w e x y) e g) g e"
    by (simp add: place_unfold[OF e])
  with g show ?thesis
    by (simp add: entities_entities_add maps_set_parent positioned_simps(1))
next
  case (Some own)
  show ?thesis
  proof (cases own)
    case (MapRef p)
    with Some ok obtain w3 where
      w3: "entities_remove (positioned w e x y) p e = Inr w3"
      and w': "w' = entities_add (set_parent w3 e g) g e"
      by (auto simp: place_unfold[OF e] split: sum.splits)
    from entities_remove_Inr(3)[OF w3] entities_remove_Inr(4)[OF w3, of g] g w'
    show ?thesis
      by (auto simp: entities_entities_add maps_set_parent positioned_simps(1))
  next
    case (InventoryRef i)
    with Some ok have "w' = entities_add (set_parent (positioned w e x y) e g) g e"
      by (auto simp: place_unfold[OF e] split: sum.splits)
    with g show ?thesis
      by (simp add: entities_entities_add maps_set_parent positioned_simps(1))
  qed
qed

lemma place_None:
  assumes "e < length (ents w)"
  shows "place ig w e x y None = (Inr (), positioned w e x y)"
  by (simp add: place_unfold[OF assms])


text \<open>
  C10. For every entity whose parent was never set and every map \<open>g\<close>:
  \<open>place(x, y, g)\<close> returns normally, sets the position to (x, y), makes \<open>g\<close> the owner,
  adds the entity to the set of \<open>g\<close>, and removes nothing from any entity set.
\<close>

theorem place_unowned:
  assumes "e < length (ents w)" and "g < length (maps w)" and "parent (ents w ! e) = None"
  shows "\<exists>w'. place ig w e x y (Some g) = (Inr (), w')
           \<and> ent_x (ents w' ! e) = x \<and> ent_y (ents w' ! e) = y
           \<and> parent (ents w' ! e) = Some (MapRef g)
           \<and> entities (maps w' ! g) = insert e (entities (maps w ! g))
           \<and> length (maps w') = length (maps w)
           \<and> (\<forall>m. entities (maps w ! m) \<subseteq> entities (maps w' ! m))"
proof -
  let ?w' = "entities_add (set_parent (positioned w e x y) e g) g e"
  from assms have "place ig w e x y (Some g) = (Inr (), ?w')"
    by (simp add: place_unfold)
  moreover from assms(1) have "ent_x (ents ?w' ! e) = x \<and> ent_y (ents ?w' ! e) = y
      \<and> parent (ents ?w' ! e) = Some (MapRef g)"
    by (simp add: ents_entities_add ents_set_parent positioned_simps(3))
  moreover from assms(2) have "entities (maps ?w' ! g) = insert e (entities (maps w ! g))"
    by (simp add: entities_entities_add maps_set_parent positioned_simps(1))
  moreover have "length (maps ?w') = length (maps w)"
    by (simp add: length_maps_entities_add maps_set_parent positioned_simps(1))
  moreover have "\<forall>m. entities (maps w ! m) \<subseteq> entities (maps ?w' ! m)"
    by (auto simp: entities_entities_add maps_set_parent positioned_simps(1))
  ultimately show ?thesis by blast
qed

lemma two_maps_facts:
  "length (ents two_maps) = Suc 0" "length (maps two_maps) = 2"
  "parent (ents two_maps ! 0) = None"
  "entities (maps two_maps ! 0) = {0}" "entities (maps two_maps ! Suc 0) = {}"
  by (simp_all add: two_maps_def Entity_init_def build_defs)

theorem place_unowned_witness:
  "\<exists>w'. place no_inventory two_maps 0 1 1 (Some 1) = (Inr (), w')
           \<and> ent_x (ents w' ! 0) = 1 \<and> ent_y (ents w' ! 0) = 1
           \<and> parent (ents w' ! 0) = Some (MapRef 1)
           \<and> entities (maps w' ! 1) = {0}
           \<and> length (maps w') = 2"
  using place_unowned [of 0 two_maps 1 no_inventory 1 1]
  by (auto simp: two_maps_facts)

text \<open>
  C4 as stated fails. In \<open>two_maps\<close> the entity 0 is registered in exactly one map (map
  0), but has no parent: the constructor of a map registers the entities it is given
  without making itself their owner. \<open>place(1, 1, map 1)\<close> then finds no parent, removes
  nothing, and leaves the entity registered in both maps.
\<close>

theorem place_double_registration_counterexample:
  "entities (maps two_maps ! 0) = {0} \<and> entities (maps two_maps ! 1) = {}
   \<and> length (maps two_maps) = 2
   \<and> fst (place no_inventory two_maps 0 1 1 (Some 1)) = Inr ()
   \<and> entities (maps (snd (place no_inventory two_maps 0 1 1 (Some 1))) ! 0) = {0}
   \<and> entities (maps (snd (place no_inventory two_maps 0 1 1 (Some 1))) ! 1) = {0}"
  by (simp add: two_maps_def Entity_init_def build_defs)

text \<open>
  C4, as amended. For every entity whose owner is a map \<open>p\<close> and that is registered in
  the set of \<open>p\<close> and of no other map, and every map \<open>g\<close>: \<open>place(x, y, g)\<close> returns
  normally; afterwards the entity is registered in the set of \<open>g\<close> and of no other map,
  its owner is \<open>g\<close> and its position is (x, y).
\<close>

theorem place_moves_registration:
  assumes e: "e < length (ents w)" and g: "g < length (maps w)" and p: "p < length (maps w)"
    and par: "parent (ents w ! e) = Some (MapRef p)"
    and reg: "\<forall>m<length (maps w). e \<in> entities (maps w ! m) \<longleftrightarrow> m = p"
  shows "\<exists>w'. place ig w e x y (Some g) = (Inr (), w')
           \<and> length (maps w') = length (maps w)
           \<and> (\<forall>m<length (maps w'). e \<in> entities (maps w' ! m) \<longleftrightarrow> m = g)
           \<and> parent (ents w' ! e) = Some (MapRef g)
           \<and> ent_x (ents w' ! e) = x \<and> ent_y (ents w' ! e) = y"
proof -
  from reg p have "e \<in> entities (maps (positioned w e x y) ! p)"
    by (simp add: positioned_simps(1))
  then obtain w3 where w3: "entities_remove (positioned w e x y) p e = Inr w3"
    using entities_remove_iff by blast
  let ?w' = "entities_add (set_parent w3 e g) g e"
  note r = entities_remove_Inr[OF w3]
  from e par w3 have "place ig w e x y (Some g) = (Inr (), ?w')"
    by (simp add: place_unfold)
  moreover have len: "length (maps ?w') = length (maps w)"
    by (simp add: length_maps_entities_add maps_set_parent r(3) positioned_simps(1))
  moreover have "\<forall>m<length (maps ?w'). e \<in> entities (maps ?w' ! m) \<longleftrightarrow> m = g"
    using reg p g
    by (auto simp: entities_entities_add maps_set_parent r(3,4) positioned_simps(1)
        length_maps_entities_add)
  moreover from e have "parent (ents ?w' ! e) = Some (MapRef g)
      \<and> ent_x (ents ?w' ! e) = x \<and> ent_y (ents ?w' ! e) = y"
    by (simp add: ents_entities_add ents_set_parent r(2) positioned_simps(3))
  ultimately show ?thesis by blast
qed

lemma two_levels_facts:
  "length (ents two_levels) = Suc 0" "length (maps two_levels) = 2"
  "parent (ents two_levels ! 0) = Some (MapRef 0)"
  "entities (maps two_levels ! 0) = {0}" "entities (maps two_levels ! Suc 0) = {}"
  "blocks_movement (ents two_levels ! 0)"
  by (simp_all add: two_levels_def arena_def build_defs)

theorem place_moves_registration_witness:
  "\<exists>w'. place no_inventory two_levels 0 1 1 (Some 1) = (Inr (), w')
           \<and> length (maps w') = 2
           \<and> 0 \<notin> entities (maps w' ! 0) \<and> 0 \<in> entities (maps w' ! 1)
           \<and> parent (ents w' ! 0) = Some (MapRef 1)
           \<and> ent_x (ents w' ! 0) = 1 \<and> ent_y (ents w' ! 0) = 1"
  using place_moves_registration [of 0 two_levels 1 0 no_inventory 1 1]
  by (auto simp: two_levels_facts less_Suc_eq numeral_2_eq_2)


text \<open>
  C8. Let an entity \<open>e\<close> be placed at (x, y) on a map \<open>m\<close>, by \<open>place(x, y)\<close> when \<open>e\<close> is
  already in the set of \<open>m\<close> or by \<open>place(x, y, m)\<close>, the call returning normally, and let
  no other entity of \<open>m\<close> block at (x, y). Then, for every iteration order of the set of
  \<open>m\<close>, \<open>get_blocking_entity_at_location(x, y)\<close> returns \<open>e\<close> if \<open>e\<close> blocks movement
  and none otherwise.
\<close>

theorem place_then_blocking_query:
  assumes e: "e < length (ents w)" and m: "m < length (maps w)"
    and gm: "gm = None \<and> e \<in> entities (maps w ! m) \<or> gm = Some m"
    and ok: "place ig w e x y gm = (Inr (), w')"
    and es: "set es = entities (maps w' ! m)"
    and others: "\<forall>b\<in>entities (maps w ! m). b \<noteq> e \<longrightarrow> \<not> blocker_at w x y b"
  shows "get_blocking_entity_at_location w' es x y =
           (if blocks_movement (ents w ! e) then Some e else None)"
proof -
  from ok have w': "w' = snd (place ig w e x y gm)" by simp
  have self: "blocker_at w' x y e \<longleftrightarrow> blocks_movement (ents w ! e)"
    unfolding w' blocker_at_def using place_self_entity(1,2,3)[OF e] by simp
  have other: "blocker_at w' x y b \<longleftrightarrow> blocker_at w x y b" if "b \<noteq> e" for b
    unfolding w' blocker_at_def using place_other_entity[OF e that] by simp
  have mem: "set es = insert e (entities (maps w ! m))"
  proof (cases gm)
    case None
    with gm have "e \<in> entities (maps w ! m)" by simp
    moreover from None ok e have "w' = positioned w e x y"
      by (simp add: place_None)
    then have "maps w' = maps w" by (simp add: positioned_simps(1))
    ultimately show ?thesis using es by (simp add: insert_absorb)
  next
    case (Some g)
    with gm have "g = m" by simp
    with Some ok have "place ig w e x y (Some m) = (Inr (), w')" by simp
    from place_Some_entities[OF this e m] es show ?thesis by simp
  qed
  have only: "b = e" if b: "b \<in> set es" "blocker_at w' x y b" for b
  proof (rule ccontr)
    assume ne: "b \<noteq> e"
    with b(1) mem have "b \<in> entities (maps w ! m)" by simp
    with others ne have "\<not> blocker_at w x y b" by blast
    with other[OF ne] b(2) show False by simp
  qed
  show ?thesis
  proof (cases "blocks_movement (ents w ! e)")
    case True
    with self mem have "\<exists>b\<in>set es. blocker_at w' x y b" by auto
    then have "get_blocking_entity_at_location w' es x y \<noteq> None"
      by (simp add: get_blocking_None)
    then obtain b where b: "get_blocking_entity_at_location w' es x y = Some b" by auto
    from get_blocking_Some[OF b] only have "b = e" by blast
    with b True show ?thesis by simp
  next
    case False
    with self only have "\<forall>b\<in>set es. \<not> blocker_at w' x y b" by blast
    with False show ?thesis by (simp add: get_blocking_None)
  qed
qed

lemma place_examples:
  "place no_inventory two_levels 0 3 3 None = (Inr (), positioned two_levels 0 3 3)"
  "entities (maps (positioned two_levels 0 3 3) ! 0) = {0}"
  "fst (place no_inventory two_levels 0 3 3 (Some (Suc 0))) = Inr ()"
  "entities (maps (snd (place no_inventory two_levels 0 3 3 (Some (Suc 0)))) ! Suc 0) = {0}"
  by (simp_all add: place_None two_levels_facts positioned_simps(1))
     (simp_all add: two_levels_def arena_def build_defs)

theorem place_then_blocking_query_witness:
  "get_blocking_entity_at_location (positioned two_levels 0 3 3) [0] 3 3 = Some 0
   \<and> get_blocking_entity_at_location
        (snd (place no_inventory two_levels 0 3 3 (Some 1))) [0] 3 3 = Some 0"
proof -
  have a: "get_blocking_entity_at_location (positioned two_levels 0 3 3) [0] 3 3 =
           (if blocks_movement (ents two_levels ! 0) then Some 0 else None)"
    by (rule place_then_blocking_query [of 0 two_levels 0 None no_inventory])
       (simp_all add: place_examples(1,2) two_levels_facts)
  have ok: "place no_inventory two_levels 0 3 3 (Some 1) =
            (Inr (), snd (place no_inventory two_levels 0 3 3 (Some 1)))"
    using place_examples(3) by (simp add: prod_eq_iff)
  have b: "get_blocking_entity_at_location
             (snd (place no_inventory two_levels 0 3 3 (Some 1))) [0] 3 3 =
           (if blocks_movement (ents two_levels ! 0) then Some 0 else None)"
  proof (rule place_then_blocking_query [of 0 two_levels 1 "Some 1" no_inventory, OF _ _ _ ok])
    show "set [0] = entities (maps (snd (place no_inventory two_levels 0 3 3 (Some 1))) ! 1)"
      by (simp add: place_examples(4))
  qed (simp_all add: two_levels_facts)
  from a b show ?thesis by (simp add: two_levels_facts)
qed

section \<open>Actors block movement\<close>

lemma Actor_init_entity:
  assumes "Actor_init w x y ch col nm ai_cls ftr ivt = (w', a)"
  shows "a = length (ents w)"
    and "ents w' = ents w @
           [\<lparr>name = nm, char = ch, colour = col, ent_x = x, ent_y = y,
             blocks_movement = True, render_order = ACTOR, parent = None, cls = ActorCls,
             ai = Some (length (comps w)), fighter = Some ftr, inventory = Some ivt,
             consumable = None, game_map_attr = None\<rparr>]"
  using assms by (auto simp: Actor_init_def Entity_new_def set_cparent_def Let_def)

text \<open>
  C9. Whatever the arguments of \<open>Actor.__init__\<close>, the actor it builds blocks movement
  and has render order ACTOR. Consequently, let that actor later have any position
  (x, y), any owner and its AI handle present or cleared (alive or dead), these being the
  attributes assigned after construction: if it is the only entity of the iterated set at
  (x, y), \<open>get_blocking_entity_at_location(x, y)\<close> returns it.
\<close>

theorem Actor_blocks_movement:
  assumes init: "Actor_init w x0 y0 ch col nm ai_cls ftr ivt = (w1, a)"
    and later: "ents w2 ! a = (ents w1 ! a)\<lparr>ent_x := x, ent_y := y, parent := par, ai := ai'\<rparr>"
    and mem: "a \<in> set es"
    and sole: "\<forall>b\<in>set es. b \<noteq> a \<longrightarrow> \<not> (ent_x (ents w2 ! b) = x \<and> ent_y (ents w2 ! b) = y)"
  shows "blocks_movement (ents w1 ! a) \<and> render_order (ents w1 ! a) = ACTOR
         \<and> get_blocking_entity_at_location w2 es x y = Some a"
proof -
  note A = Actor_init_entity[OF init]
  have new: "blocks_movement (ents w1 ! a) \<and> render_order (ents w1 ! a) = ACTOR"
    by (simp add: A)
  with later have "blocker_at w2 x y a" by (simp add: blocker_at_def)
  with mem have "get_blocking_entity_at_location w2 es x y \<noteq> None"
    by (auto simp: get_blocking_None)
  then obtain b where b: "get_blocking_entity_at_location w2 es x y = Some b" by auto
  from get_blocking_Some[OF b] sole have "b = a" by (auto simp: blocker_at_def)
  with b new show ?thesis by simp
qed

lemma lobby_actor:
  "Actor_init lobby 0 0 ''@'' (255, 255, 255) ''Player'' 0 0 1 = (troupe, 0)"
  by (simp add: troupe_def lobby_def build_defs prod_eq_iff)

theorem Actor_blocks_movement_witness:
  "get_blocking_entity_at_location corpse [0] 5 5 = Some 0"
proof -
  have "ents corpse ! 0 =
        (ents troupe ! 0)\<lparr>ent_x := 5, ent_y := 5, parent := Some (MapRef 0), ai := None\<rparr>"
    by (simp add: corpse_def troupe_def lobby_def build_defs)
  from Actor_blocks_movement [OF lobby_actor this, of "[0]"] show ?thesis by simp
qed

section \<open>Spawning\<close>

subsection \<open>The traversal reaches a closed set of objects\<close>

lemma wf_world_refs:
  assumes "wf_world w" and "valid_obj w ob" and "r \<in> refs_of w ob"
  shows "valid_obj w r"
  using assms unfolding wf_world_def by (cases ob) auto

lemma valid_objs_card:
  "finite {ob. valid_obj w ob}" "card {ob. valid_obj w ob} \<le> n_objects w"
proof -
  have eq: "{ob. valid_obj w ob} =
        EntObj ` {..<length (ents w)} \<union> CompObj ` {..<length (comps w)}
          \<union> MapObj ` {..<length (maps w)} \<union> EngObj ` {..<length (engines w)}"
    (is "_ = ?A \<union> ?B \<union> ?C \<union> ?D")
  proof (rule set_eqI)
    fix ob show "ob \<in> {ob. valid_obj w ob} \<longleftrightarrow> ob \<in> ?A \<union> ?B \<union> ?C \<union> ?D"
      by (cases ob) auto
  qed
  show "finite {ob. valid_obj w ob}" unfolding eq by simp
  have "card (?A \<union> ?B \<union> ?C \<union> ?D) \<le> card ?A + card ?B + card ?C + card ?D"
    by (meson add_mono card_Un_le le_refl order_trans)
  also have "\<dots> \<le> n_objects w"
    unfolding n_objects_def
    by (intro add_mono) (simp_all add: card_image_le[THEN order_trans])
  finally show "card {ob. valid_obj w ob} \<le> n_objects w" unfolding eq .
qed

text \<open>A growing operator on the subsets of a finite set is stationary after as many rounds
  as the set has elements.\<close>

lemma inflationary_fixpoint:
  fixes f :: "'a set \<Rightarrow> 'a set"
  assumes fin: "finite U" and clo: "\<And>X. X \<subseteq> U \<Longrightarrow> f X \<subseteq> U"
    and infl: "\<And>X. X \<subseteq> f X" and X0: "X0 \<subseteq> U" "X0 \<noteq> {}" and n: "card U \<le> n"
  shows "f ((f ^^ n) X0) = (f ^^ n) X0"
proof -
  have sub: "(f ^^ k) X0 \<subseteq> U" for k
    by (induction k) (simp_all add: X0 clo)
  have grow: "Suc k \<le> card ((f ^^ k) X0) \<or> f ((f ^^ k) X0) = (f ^^ k) X0" for k
  proof (induction k)
    case 0
    from X0 fin have "finite X0" by (meson finite_subset)
    with X0(2) have "card X0 \<noteq> 0" by simp
    then show ?case by simp
  next
    case (Suc k)
    show ?case
    proof (cases "f ((f ^^ k) X0) = (f ^^ k) X0")
      case True
      then show ?thesis by simp
    next
      case False
      with Suc have c: "Suc k \<le> card ((f ^^ k) X0)" by blast
      from False infl have "(f ^^ k) X0 \<subset> f ((f ^^ k) X0)" by blast
      moreover have "finite (f ((f ^^ k) X0))"
        using sub[of "Suc k"] fin by (simp add: finite_subset)
      ultimately have "card ((f ^^ k) X0) < card (f ((f ^^ k) X0))"
        by (rule psubset_card_mono[rotated])
      with c show ?thesis by simp
    qed
  qed
  have "card ((f ^^ n) X0) \<le> card U" by (rule card_mono[OF fin sub])
  with n grow[of n] show ?thesis by simp
qed

lemma reachable_closed:
  assumes wf: "wf_world w" and t: "t < length (ents w)"
  shows "EntObj t \<in> reachable w t"
    and "\<forall>ob\<in>reachable w t. valid_obj w ob"
    and "\<forall>ob\<in>reachable w t. refs_of w ob \<subseteq> reachable w t"
proof -
  let ?U = "{ob. valid_obj w ob}" and ?f = "reach_step w"
  have clo: "?f X \<subseteq> ?U" if "X \<subseteq> ?U" for X
    using that wf_world_refs[OF wf] by (auto simp: reach_step_def)
  have infl: "X \<subseteq> ?f X" for X by (simp add: reach_step_def)
  have X0: "{EntObj t} \<subseteq> ?U" "{EntObj t} \<noteq> {}" using t by simp_all
  have sub: "(?f ^^ k) {EntObj t} \<subseteq> ?U" for k
    by (induction k) (use X0 clo in simp_all)
  have mono: "{EntObj t} \<subseteq> (?f ^^ k) {EntObj t}" for k
    by (induction k) (use infl in auto)
  show "EntObj t \<in> reachable w t" using mono by (auto simp: reachable_def)
  show "\<forall>ob\<in>reachable w t. valid_obj w ob" using sub by (auto simp: reachable_def)
  have "?f (reachable w t) = reachable w t"
    unfolding reachable_def
    by (rule inflationary_fixpoint[OF valid_objs_card(1) clo infl X0 valid_objs_card(2)])
  then show "\<forall>ob\<in>reachable w t. refs_of w ob \<subseteq> reachable w t"
    by (auto simp: reach_step_def)
qed


subsection \<open>The copies and their references\<close>

lemma count_below_split:
  assumes "i < n" and "P i"
  shows "filter P [0..<n] = filter P [0..<i] @ i # filter P [Suc i..<n]"
proof -
  from assms(1) have "[0..<i + (n - i)] = [0..<i] @ [i..<i + (n - i)]"
    by (intro upt_add_eq_append) simp
  with assms(1) have "[0..<n] = [0..<i] @ i # [Suc i..<n]"
    by (simp add: upt_conv_Cons)
  then show ?thesis using assms(2) by simp
qed

lemma count_below_less:
  assumes "i < n" and "P i"
  shows "count_below P i < length (filter P [0..<n])"
  using count_below_split[of i n P] assms by (simp add: count_below_def)

lemma count_below_nth:
  assumes "i < n" and "P i"
  shows "filter P [0..<n] ! count_below P i = i"
  using count_below_split[of i n P] assms by (simp add: count_below_def nth_append)

lemma filter_upt_nth:
  assumes "j < length (filter P [0..<n])"
  shows "\<exists>i<n. P i \<and> map f (filter P [0..<n]) ! j = f i"
proof -
  from assms have "filter P [0..<n] ! j \<in> set (filter P [0..<n])" by (rule nth_mem)
  then have "filter P [0..<n] ! j < n \<and> P (filter P [0..<n] ! j)" by simp
  with assms show ?thesis by (auto intro!: exI[of _ "filter P [0..<n] ! j"])
qed

lemma deepcopy_stores:
  assumes "deepcopy w t = (w1, clone)" and "R = reachable w t"
  shows "clone = new_ent w R t"
    and "ents w1 = ents w @ map (\<lambda>e. copy_entity w R (ents w ! e))
                 (filter (\<lambda>i. EntObj i \<in> R) [0..<length (ents w)])"
    and "comps w1 = comps w @ map (\<lambda>c. copy_comp w R (comps w ! c))
                 (filter (\<lambda>i. CompObj i \<in> R) [0..<length (comps w)])"
    and "maps w1 = maps w @ map (\<lambda>m. copy_map w R (maps w ! m))
                 (filter (\<lambda>i. MapObj i \<in> R) [0..<length (maps w)])"
    and "engines w1 = engines w @ map (\<lambda>g. copy_engine w R (engines w ! g))
                 (filter (\<lambda>i. EngObj i \<in> R) [0..<length (engines w)])"
    and "stdout w1 = stdout w"
proof -
  from assms have w1: "w1 = fst (deepcopy w t)" and cl: "clone = snd (deepcopy w t)"
    by simp_all
  show "clone = new_ent w R t" by (simp add: cl deepcopy_def Let_def assms(2))
  show "ents w1 = ents w @ map (\<lambda>e. copy_entity w R (ents w ! e))
                 (filter (\<lambda>i. EntObj i \<in> R) [0..<length (ents w)])"
    by (simp add: w1 deepcopy_def Let_def assms(2))
  show "comps w1 = comps w @ map (\<lambda>c. copy_comp w R (comps w ! c))
                 (filter (\<lambda>i. CompObj i \<in> R) [0..<length (comps w)])"
    by (simp add: w1 deepcopy_def Let_def assms(2))
  show "maps w1 = maps w @ map (\<lambda>m. copy_map w R (maps w ! m))
                 (filter (\<lambda>i. MapObj i \<in> R) [0..<length (maps w)])"
    by (simp add: w1 deepcopy_def Let_def assms(2))
  show "engines w1 = engines w @ map (\<lambda>g. copy_engine w R (engines w ! g))
                 (filter (\<lambda>i. EngObj i \<in> R) [0..<length (engines w)])"
    by (simp add: w1 deepcopy_def Let_def assms(2))
  show "stdout w1 = stdout w" by (simp add: w1 deepcopy_def Let_def)
qed

lemma memo_copy:
  assumes dc: "deepcopy w t = (w1, clone)" and R: "R = reachable w t"
  shows "EntObj e \<in> R \<Longrightarrow> e < length (ents w) \<Longrightarrow>
           is_new w w1 (EntObj (new_ent w R e))
           \<and> ents w1 ! new_ent w R e = copy_entity w R (ents w ! e)"
    and "CompObj c \<in> R \<Longrightarrow> c < length (comps w) \<Longrightarrow>
           is_new w w1 (CompObj (new_comp w R c))
           \<and> comps w1 ! new_comp w R c = copy_comp w R (comps w ! c)"
    and "MapObj m \<in> R \<Longrightarrow> m < length (maps w) \<Longrightarrow>
           is_new w w1 (MapObj (new_map w R m))
           \<and> maps w1 ! new_map w R m = copy_map w R (maps w ! m)"
    and "EngObj g \<in> R \<Longrightarrow> g < length (engines w) \<Longrightarrow>
           is_new w w1 (EngObj (new_eng w R g))
           \<and> engines w1 ! new_eng w R g = copy_engine w R (engines w ! g)"
  by (simp_all add: deepcopy_stores[OF dc R] new_ent_def new_comp_def new_map_def new_eng_def
      count_below_less count_below_nth)

lemma memo_new:
  assumes dc: "deepcopy w t = (w1, clone)" and R: "R = reachable w t"
    and "ob \<in> R" and "valid_obj w ob"
  shows "is_new w w1 (memo w R ob)"
  using assms(3,4) memo_copy[OF dc R] by (cases ob) simp_all


lemma owner_obj_new: "owner_obj (new_owner w R ow) = memo w R (owner_obj ow)"
  by (cases ow) simp_all

lemma component_refs_copy:
  "component_refs (copy_entity w R E) = new_comp w R ` component_refs E"
  by (simp add: component_refs_def copy_entity_def option.set_map image_Un)

lemma refs_of_copy:
  "ents w1 ! e' = copy_entity w R (ents w ! e) \<Longrightarrow>
     refs_of w1 (EntObj e') = memo w R ` refs_of w (EntObj e)"
  "comps w1 ! c' = copy_comp w R (comps w ! c) \<Longrightarrow>
     refs_of w1 (CompObj c') = memo w R ` refs_of w (CompObj c)"
  "maps w1 ! m' = copy_map w R (maps w ! m) \<Longrightarrow>
     refs_of w1 (MapObj m') = memo w R ` refs_of w (MapObj m)"
  "engines w1 ! g' = copy_engine w R (engines w ! g) \<Longrightarrow>
     refs_of w1 (EngObj g') = memo w R ` refs_of w (EngObj g)"
proof -
  show "refs_of w1 (EntObj e') = memo w R ` refs_of w (EntObj e)"
    if "ents w1 ! e' = copy_entity w R (ents w ! e)"
  proof -
    have "refs_of w1 (EntObj e') =
        owner_obj ` set_option (parent (copy_entity w R (ents w ! e)))
          \<union> CompObj ` component_refs (copy_entity w R (ents w ! e))
          \<union> MapObj ` set_option (game_map_attr (copy_entity w R (ents w ! e)))"
      by (simp add: that)
    also have "\<dots> = memo w R ` refs_of w (EntObj e)"
      by (simp add: component_refs_copy image_Un image_image)
         (simp add: copy_entity_def option.set_map image_image owner_obj_new)
    finally show ?thesis .
  qed
  show "refs_of w1 (CompObj c') = memo w R ` refs_of w (CompObj c)"
    if "comps w1 ! c' = copy_comp w R (comps w ! c)"
    by (simp add: that copy_comp_def option.set_map image_Un image_image)
  show "refs_of w1 (MapObj m') = memo w R ` refs_of w (MapObj m)"
    if "maps w1 ! m' = copy_map w R (maps w ! m)"
    by (simp add: that copy_map_def image_image)
  show "refs_of w1 (EngObj g') = memo w R ` refs_of w (EngObj g)"
    if "engines w1 ! g' = copy_engine w R (engines w ! g)"
    by (simp add: that copy_engine_def)
qed

lemma new_is_copy:
  assumes dc: "deepcopy w t = (w1, clone)" and R: "R = reachable w t"
    and new: "is_new w w1 ob'"
  shows "\<exists>ob\<in>R. valid_obj w ob \<and> refs_of w1 ob' = memo w R ` refs_of w ob"
proof (cases ob')
  case (EntObj e')
  with new have "e' - length (ents w) <
      length (filter (\<lambda>i. EntObj i \<in> R) [0..<length (ents w)])"
    and ge: "length (ents w) \<le> e'"
    by (auto simp: deepcopy_stores(2)[OF dc R])
  from filter_upt_nth[OF this(1), of "\<lambda>e. copy_entity w R (ents w ! e)"] ge
  obtain e where "e < length (ents w)" "EntObj e \<in> R"
    "ents w1 ! e' = copy_entity w R (ents w ! e)"
    by (auto simp: deepcopy_stores(2)[OF dc R] nth_append)
  with refs_of_copy(1)[OF this(3)] EntObj show ?thesis
    by (intro bexI[of _ "EntObj e"]) simp_all
next
  case (CompObj c')
  with new have "c' - length (comps w) <
      length (filter (\<lambda>i. CompObj i \<in> R) [0..<length (comps w)])"
    and ge: "length (comps w) \<le> c'"
    by (auto simp: deepcopy_stores(3)[OF dc R])
  from filter_upt_nth[OF this(1), of "\<lambda>c. copy_comp w R (comps w ! c)"] ge
  obtain c where "c < length (comps w)" "CompObj c \<in> R"
    "comps w1 ! c' = copy_comp w R (comps w ! c)"
    by (auto simp: deepcopy_stores(3)[OF dc R] nth_append)
  with refs_of_copy(2)[OF this(3)] CompObj show ?thesis
    by (intro bexI[of _ "CompObj c"]) simp_all
next
  case (MapObj m')
  with new have "m' - length (maps w) <
      length (filter (\<lambda>i. MapObj i \<in> R) [0..<length (maps w)])"
    and ge: "length (maps w) \<le> m'"
    by (auto simp: deepcopy_stores(4)[OF dc R])
  from filter_upt_nth[OF this(1), of "\<lambda>m. copy_map w R (maps w ! m)"] ge
  obtain m where "m < length (maps w)" "MapObj m \<in> R"
    "maps w1 ! m' = copy_map w R (maps w ! m)"
    by (auto simp: deepcopy_stores(4)[OF dc R] nth_append)
  with refs_of_copy(3)[OF this(3)] MapObj show ?thesis
    by (intro bexI[of _ "MapObj m"]) simp_all
next
  case (EngObj g')
  with new have "g' - length (engines w) <
      length (filter (\<lambda>i. EngObj i \<in> R) [0..<length (engines w)])"
    and ge: "length (engines w) \<le> g'"
    by (auto simp: deepcopy_stores(5)[OF dc R])
  from filter_upt_nth[OF this(1), of "\<lambda>g. copy_engine w R (engines w ! g)"] ge
  obtain g where "g < length (engines w)" "EngObj g \<in> R"
    "engines w1 ! g' = copy_engine w R (engines w ! g)"
    by (auto simp: deepcopy_stores(5)[OF dc R] nth_append)
  with refs_of_copy(4)[OF this(3)] EngObj show ?thesis
    by (intro bexI[of _ "EngObj g"]) simp_all
qed

text \<open>Every reference held by a copy leads to a copy.\<close>

lemma deepcopy_isolated:
  assumes wf: "wf_world w" and t: "t < length (ents w)"
    and dc: "deepcopy w t = (w1, clone)"
    and new: "is_new w w1 ob'" and r: "r \<in> refs_of w1 ob'"
  shows "is_new w w1 r"
proof -
  define R where "R = reachable w t"
  note cl = reachable_closed[OF wf t, folded R_def]
  from new_is_copy[OF dc R_def new] obtain ob where ob: "ob \<in> R" "valid_obj w ob"
    "refs_of w1 ob' = memo w R ` refs_of w ob" by blast
  with r obtain r0 where r0: "r0 \<in> refs_of w ob" "r = memo w R r0" by blast
  with cl(3) ob(1) have "r0 \<in> R" by blast
  with cl(2) memo_new[OF dc R_def] r0(2) show ?thesis by blast
qed


lemma spawn_unfold:
  assumes "deepcopy w t = (w1, clone)" and "clone < length (ents w1)"
  shows "spawn w t g x y =
     (w1\<lparr>ents := (ents w1)[clone := (ents w1 ! clone)
                \<lparr>ent_x := x, ent_y := y, parent := Some (MapRef g)\<rparr>],
         maps := (maps w1)[g := (maps w1 ! g)
                \<lparr>entities := insert clone (entities (maps w1 ! g))\<rparr>]\<rparr>,
      clone)"
  using assms by (simp add: spawn_def set_parent_def entities_add_def Let_def)

lemma component_slot_copied:
  assumes wf: "wf_world w" and t: "t < length (ents w)"
    and dc: "deepcopy w t = (w1, clone)"
    and k: "k \<in> component_refs (ents w ! t)"
  shows "is_new w w1 (CompObj (new_comp w (reachable w t) k))"
    and "payload (comps w1 ! new_comp w (reachable w t) k) = payload (comps w ! k)"
    and "cparent (comps w ! k) = Some t \<Longrightarrow>
           cparent (comps w1 ! new_comp w (reachable w t) k) = Some clone"
proof -
  define R where "R = reachable w t"
  note cl = reachable_closed[OF wf t, folded R_def]
  from k have "CompObj k \<in> refs_of w (EntObj t)" by simp
  with cl(1,3) have kR: "CompObj k \<in> R" by blast
  with cl(2) have "valid_obj w (CompObj k)" by blast
  then have kv: "k < length (comps w)" by simp
  note m = memo_copy(2)[OF dc R_def kR kv]
  show "is_new w w1 (CompObj (new_comp w (reachable w t) k))"
    using m by (simp add: R_def)
  show "payload (comps w1 ! new_comp w (reachable w t) k) = payload (comps w ! k)"
    using m by (simp add: R_def copy_comp_def)
  show "cparent (comps w1 ! new_comp w (reachable w t) k) = Some clone"
    if "cparent (comps w ! k) = Some t"
    using m that deepcopy_stores(1)[OF dc R_def] by (simp add: R_def copy_comp_def)
qed


subsection \<open>The clone\<close>

text \<open>
  C5. For every world without dangling references, template entity \<open>t\<close>, map \<open>g\<close> and
  coordinates (x, y): \<open>spawn\<close> returns a new entity object, the clone, at (x, y), owned by
  \<open>g\<close> and added to the entity set of \<open>g\<close>, with the name, glyph, colour, blocking flag,
  render order and class of the template. Every entity and every component that existed
  before the call, the template and its components among them, is unchanged. The copy is
  closed: a reference held by a new object leads to a new object, the one exception being
  the clone's owner \<open>g\<close>. In particular the Fighter and the Inventory of the clone are new
  objects with the contents of the template's, their back-reference leads to the clone
  where the template's led to the template, and assigning any value to a new component
  leaves every earlier component as it was.
\<close>

theorem spawn_clone:
  assumes wf: "wf_world w" and t: "t < length (ents w)" and g: "g < length (maps w)"
  shows "\<exists>w' clone. spawn w t g x y = (w', clone)
     \<and> is_new w w' (EntObj clone)
     \<and> ent_x (ents w' ! clone) = x \<and> ent_y (ents w' ! clone) = y
     \<and> parent (ents w' ! clone) = Some (MapRef g)
     \<and> entities (maps w' ! g) = insert clone (entities (maps w ! g))
     \<and> name (ents w' ! clone) = name (ents w ! t)
     \<and> char (ents w' ! clone) = char (ents w ! t)
     \<and> colour (ents w' ! clone) = colour (ents w ! t)
     \<and> blocks_movement (ents w' ! clone) = blocks_movement (ents w ! t)
     \<and> render_order (ents w' ! clone) = render_order (ents w ! t)
     \<and> cls (ents w' ! clone) = cls (ents w ! t)
     \<and> (\<forall>e<length (ents w). ents w' ! e = ents w ! e)
     \<and> (\<forall>c<length (comps w). comps w' ! c = comps w ! c)
     \<and> (\<forall>ob r. is_new w w' ob \<and> r \<in> refs_of w' ob \<longrightarrow>
            is_new w w' r \<or> (ob = EntObj clone \<and> r = MapObj g))
     \<and> (\<forall>k. fighter (ents w ! t) = Some k \<longrightarrow>
           (\<exists>k'. fighter (ents w' ! clone) = Some k' \<and> is_new w w' (CompObj k')
                 \<and> payload (comps w' ! k') = payload (comps w ! k)
                 \<and> (cparent (comps w ! k) = Some t \<longrightarrow> cparent (comps w' ! k') = Some clone)))
     \<and> (\<forall>k. inventory (ents w ! t) = Some k \<longrightarrow>
           (\<exists>k'. inventory (ents w' ! clone) = Some k' \<and> is_new w w' (CompObj k')
                 \<and> payload (comps w' ! k') = payload (comps w ! k)
                 \<and> (cparent (comps w ! k) = Some t \<longrightarrow> cparent (comps w' ! k') = Some clone)))
     \<and> (\<forall>k v. is_new w w' (CompObj k) \<longrightarrow>
           (\<forall>c<length (comps w). (comps w')[k := v] ! c = comps w ! c))"
proof -
  obtain w1 clone where dc: "deepcopy w t = (w1, clone)" by fastforce
  define R where "R = reachable w t"
  note cl = reachable_closed[OF wf t, folded R_def]
  note st = deepcopy_stores[OF dc R_def]
  from memo_copy(1)[OF dc R_def cl(1) t] st(1)
  have new_clone: "is_new w w1 (EntObj clone)"
    and copy: "ents w1 ! clone = copy_entity w R (ents w ! t)" by simp_all
  then have clv: "clone < length (ents w1)" and clge: "length (ents w) \<le> clone" by simp_all
  let ?C = "(ents w1 ! clone)\<lparr>ent_x := x, ent_y := y, parent := Some (MapRef g)\<rparr>"
  let ?w' = "w1\<lparr>ents := (ents w1)[clone := ?C],
         maps := (maps w1)[g := (maps w1 ! g)
                \<lparr>entities := insert clone (entities (maps w1 ! g))\<rparr>]\<rparr>"
  have sp: "spawn w t g x y = (?w', clone)" by (rule spawn_unfold[OF dc clv])
  have new_eq: "is_new w ?w' ob = is_new w w1 ob" for ob by (cases ob) simp_all
  have clone': "ents ?w' ! clone = ?C" using clv by simp
  have g1: "g < length (maps w1)" "maps w1 ! g = maps w ! g"
    using g by (simp_all add: st(4) nth_append)
  have c1: "is_new w ?w' (EntObj clone)" using new_clone by (simp add: new_eq)
  have c2: "ent_x (ents ?w' ! clone) = x \<and> ent_y (ents ?w' ! clone) = y
     \<and> parent (ents ?w' ! clone) = Some (MapRef g)"
    using clv by simp
  have c3: "entities (maps ?w' ! g) = insert clone (entities (maps w ! g))"
    using g1 by simp
  have c4: "name (ents ?w' ! clone) = name (ents w ! t)
     \<and> char (ents ?w' ! clone) = char (ents w ! t)
     \<and> colour (ents ?w' ! clone) = colour (ents w ! t)
     \<and> blocks_movement (ents ?w' ! clone) = blocks_movement (ents w ! t)
     \<and> render_order (ents ?w' ! clone) = render_order (ents w ! t)
     \<and> cls (ents ?w' ! clone) = cls (ents w ! t)"
    using clv by (simp add: copy copy_entity_def)
  have c5: "\<forall>e<length (ents w). ents ?w' ! e = ents w ! e"
    using clge by (auto simp: st(2) nth_append)
  have c6: "\<forall>c<length (comps w). comps ?w' ! c = comps w ! c"
    by (simp add: st(3) nth_append)
  have c7: "\<forall>ob r. is_new w ?w' ob \<and> r \<in> refs_of ?w' ob \<longrightarrow>
            is_new w ?w' r \<or> (ob = EntObj clone \<and> r = MapObj g)"
  proof (intro allI impI, elim conjE)
    fix ob r
    assume new: "is_new w ?w' ob" and r: "r \<in> refs_of ?w' ob"
    from new have new1: "is_new w w1 ob" by (simp add: new_eq)
    have "r \<in> refs_of w1 ob \<or> (ob = EntObj clone \<and> r = MapObj g)"
    proof (cases ob)
      case (EntObj e')
      show ?thesis
      proof (cases "e' = clone")
        case True
        with EntObj r clv show ?thesis
          by (auto simp: component_refs_def)
      next
        case False
        with EntObj r show ?thesis by simp
      qed
    next
      case (CompObj c')
      with r show ?thesis by simp
    next
      case (MapObj m')
      with new1 g have "m' \<noteq> g" by auto
      with MapObj r show ?thesis by simp
    next
      case (EngObj g')
      with r show ?thesis by simp
    qed
    with deepcopy_isolated[OF wf t dc new1]
    show "is_new w ?w' r \<or> (ob = EntObj clone \<and> r = MapObj g)"
      by (auto simp: new_eq)
  qed
  have slot: "\<exists>k'. s (ents ?w' ! clone) = Some k' \<and> is_new w ?w' (CompObj k')
                 \<and> payload (comps ?w' ! k') = payload (comps w ! k)
                 \<and> (cparent (comps w ! k) = Some t \<longrightarrow> cparent (comps ?w' ! k') = Some clone)"
    if "s (ents ?w' ! clone) = Some (new_comp w R k)" "k \<in> component_refs (ents w ! t)"
    for s :: "Entity \<Rightarrow> nat option" and k
    using component_slot_copied[OF wf t dc that(2)] that(1)
    by (intro exI[of _ "new_comp w R k"]) (simp add: new_eq R_def)
  have c8: "\<forall>k. fighter (ents w ! t) = Some k \<longrightarrow>
           (\<exists>k'. fighter (ents ?w' ! clone) = Some k' \<and> is_new w ?w' (CompObj k')
                 \<and> payload (comps ?w' ! k') = payload (comps w ! k)
                 \<and> (cparent (comps w ! k) = Some t \<longrightarrow> cparent (comps ?w' ! k') = Some clone))"
  proof (intro allI impI)
    fix k assume k: "fighter (ents w ! t) = Some k"
    then have "fighter (ents ?w' ! clone) = Some (new_comp w R k)"
      using clv by (simp add: copy copy_entity_def)
    moreover from k have "k \<in> component_refs (ents w ! t)" by (simp add: component_refs_def)
    ultimately show "\<exists>k'. fighter (ents ?w' ! clone) = Some k' \<and> is_new w ?w' (CompObj k')
                 \<and> payload (comps ?w' ! k') = payload (comps w ! k)
                 \<and> (cparent (comps w ! k) = Some t \<longrightarrow> cparent (comps ?w' ! k') = Some clone)"
      by (rule slot)
  qed
  have c9: "\<forall>k. inventory (ents w ! t) = Some k \<longrightarrow>
           (\<exists>k'. inventory (ents ?w' ! clone) = Some k' \<and> is_new w ?w' (CompObj k')
                 \<and> payload (comps ?w' ! k') = payload (comps w ! k)
                 \<and> (cparent (comps w ! k) = Some t \<longrightarrow> cparent (comps ?w' ! k') = Some clone))"
  proof (intro allI impI)
    fix k assume k: "inventory (ents w ! t) = Some k"
    then have "inventory (ents ?w' ! clone) = Some (new_comp w R k)"
      using clv by (simp add: copy copy_entity_def)
    moreover from k have "k \<in> component_refs (ents w ! t)" by (simp add: component_refs_def)
    ultimately show "\<exists>k'. inventory (ents ?w' ! clone) = Some k' \<and> is_new w ?w' (CompObj k')
                 \<and> payload (comps ?w' ! k') = payload (comps w ! k)
                 \<and> (cparent (comps w ! k) = Some t \<longrightarrow> cparent (comps ?w' ! k') = Some clone)"
      by (rule slot)
  qed
  have c10: "\<forall>k v. is_new w ?w' (CompObj k) \<longrightarrow>
           (\<forall>c<length (comps w). (comps ?w')[k := v] ! c = comps w ! c)"
    using c6 by auto
  from sp c1 c2 c3 c4 c5 c6 c7 c8 c9 c10 show ?thesis by blast
qed

subsection \<open>Examples\<close>

lemma troupe_stores:
  "ents troupe =
     [\<lparr>name = ''Player'', char = ''@'', colour = (255, 255, 255), ent_x = 0, ent_y = 0,
       blocks_movement = True, render_order = ACTOR, parent = None, cls = ActorCls,
       ai = Some 2, fighter = Some 0, inventory = Some 1, consumable = None,
       game_map_attr = None\<rparr>]"
  "comps troupe =
     [\<lparr>cparent = Some 0, held_items = [], payload = 30\<rparr>,
      \<lparr>cparent = Some 0, held_items = [], payload = 26\<rparr>,
      \<lparr>cparent = Some 0, held_items = [], payload = 0\<rparr>]"
  "length (maps troupe) = Suc 0" "entities (maps troupe ! 0) = {}"
  "engine (maps troupe ! 0) = 0"
  "engines troupe = [\<lparr>game_map = 0\<rparr>]"
  by (simp_all add: troupe_def lobby_def build_defs)

lemma wf_troupe: "wf_world troupe"
  by (simp add: wf_world_def troupe_stores component_refs_def less_Suc_eq
      numeral_3_eq_3)

lemma reachable_troupe:
  "reachable troupe 0 = {EntObj 0, CompObj 0, CompObj 1, CompObj 2}"
  by (simp add: reachable_def n_objects_def reach_step_def troupe_stores component_refs_def
      eval_nat_numeral insert_commute)


theorem spawn_clone_witness:
  "\<exists>w' clone. spawn troupe 0 0 4 4 = (w', clone)
     \<and> 1 \<le> clone \<and> clone < length (ents w')
     \<and> ent_x (ents w' ! clone) = 4 \<and> ent_y (ents w' ! clone) = 4
     \<and> parent (ents w' ! clone) = Some (MapRef 0)
     \<and> entities (maps w' ! 0) = {clone}
     \<and> name (ents w' ! clone) = ''Player''
     \<and> ents w' ! 0 = ents troupe ! 0
     \<and> comps w' ! 0 = comps troupe ! 0
     \<and> (\<exists>k'. fighter (ents w' ! clone) = Some k' \<and> 3 \<le> k'
            \<and> payload (comps w' ! k') = 30 \<and> cparent (comps w' ! k') = Some clone)"
proof -
  have h: "0 < length (ents troupe)" "0 < length (maps troupe)"
    by (simp_all add: troupe_stores)
  show ?thesis
    using spawn_clone[OF wf_troupe h, of 4 4]
    apply (elim exE conjE)
    subgoal for w' clone
      apply (rule exI[of _ w'], rule exI[of _ clone])
      apply (clarsimp simp: troupe_stores)
      done
    done
qed


lemma shared_stores:
  "ents shared =
     [\<lparr>name = ''Orc'', char = ''o'', colour = (63, 127, 63), ent_x = 0, ent_y = 0,
       blocks_movement = True, render_order = ACTOR, parent = None, cls = ActorCls,
       ai = Some 3, fighter = Some 0, inventory = Some 1, consumable = None,
       game_map_attr = None\<rparr>,
      \<lparr>name = ''Troll'', char = ''T'', colour = (0, 127, 0), ent_x = 0, ent_y = 0,
       blocks_movement = True, render_order = ACTOR, parent = None, cls = ActorCls,
       ai = Some 4, fighter = Some 0, inventory = Some 2, consumable = None,
       game_map_attr = None\<rparr>]"
  "comps shared =
     [\<lparr>cparent = Some 1, held_items = [], payload = 10\<rparr>,
      \<lparr>cparent = Some 0, held_items = [], payload = 26\<rparr>,
      \<lparr>cparent = Some 1, held_items = [], payload = 27\<rparr>,
      \<lparr>cparent = Some 0, held_items = [], payload = 0\<rparr>,
      \<lparr>cparent = Some 1, held_items = [], payload = 0\<rparr>]"
  "length (maps shared) = Suc 0" "entities (maps shared ! 0) = {}"
  "engine (maps shared ! 0) = 0"
  "engines shared = [\<lparr>game_map = 0\<rparr>]"
  by (simp_all add: shared_def build_defs)

lemma reachable_shared:
  "reachable shared 0 =
     {EntObj 0, EntObj 1, CompObj 0, CompObj 1, CompObj 2, CompObj 3, CompObj 4}"
  by (simp add: reachable_def n_objects_def reach_step_def shared_stores component_refs_def
      eval_nat_numeral insert_commute)

text \<open>
  The template shares its Fighter with another actor, whom the Fighter refers to: the
  other actor is copied too (four entities after the call), and the Fighter of the clone
  refers to the copy of the other actor, not to the other actor.
\<close>

lemma spawn_shared_fighter:
  "snd (spawn shared 0 0 4 4) = 2
   \<and> length (ents (fst (spawn shared 0 0 4 4))) = 4
   \<and> fighter (ents (fst (spawn shared 0 0 4 4)) ! 2) = Some 5
   \<and> cparent (comps (fst (spawn shared 0 0 4 4)) ! 5) = Some 3
   \<and> name (ents (fst (spawn shared 0 0 4 4)) ! 3) = ''Troll''"
  by (simp add: spawn_def deepcopy_def reachable_shared Let_def set_parent_def entities_add_def
      new_ent_def new_comp_def count_below_def copy_entity_def copy_comp_def shared_stores
      eval_nat_numeral)

lemma arena_stores:
  "length (ents arena) = Suc 0" "length (comps arena) = 3" "length (maps arena) = Suc 0"
  "length (engines arena) = Suc 0"
  "parent (ents arena ! 0) = Some (MapRef 0)" "game_map_attr (ents arena ! 0) = None"
  "component_refs (ents arena ! 0) = {0, 1, 2}"
  "cparent (comps arena ! 0) = Some 0" "cparent (comps arena ! Suc 0) = Some 0"
  "cparent (comps arena ! Suc (Suc 0)) = Some 0"
  "held_items (comps arena ! 0) = []" "held_items (comps arena ! Suc 0) = []"
  "held_items (comps arena ! Suc (Suc 0)) = []"
  "entities (maps arena ! 0) = {0}" "engine (maps arena ! 0) = 0"
  "game_map (engines arena ! 0) = 0"
  by (auto simp: arena_def build_defs component_refs_def)

lemma reachable_arena:
  "reachable arena 0 = {EntObj 0, CompObj 0, CompObj 1, CompObj 2, MapObj 0, EngObj 0}"
  by (simp add: reachable_def n_objects_def reach_step_def arena_stores
      eval_nat_numeral insert_commute)

text \<open>
  The template is owned by the map it is spawned on: its map and engine are copied with
  it, the copy of the map holds the clone, and the clone ends on the original map beside
  the template.
\<close>

lemma spawn_registered_template:
  "snd (spawn arena 0 0 4 4) = 1
   \<and> length (maps (fst (spawn arena 0 0 4 4))) = 2
   \<and> length (engines (fst (spawn arena 0 0 4 4))) = 2
   \<and> entities (maps (fst (spawn arena 0 0 4 4)) ! 0) = {0, 1}
   \<and> entities (maps (fst (spawn arena 0 0 4 4)) ! 1) = {1}
   \<and> parent (ents (fst (spawn arena 0 0 4 4)) ! 1) = Some (MapRef 0)"
  by (simp add: spawn_def deepcopy_def reachable_arena Let_def set_parent_def entities_add_def
      new_ent_def new_comp_def new_map_def new_eng_def count_below_def copy_entity_def
      copy_map_def arena_stores eval_nat_numeral insert_commute nth_append)

end
